theory Spec2Isabelle
  imports Complex_Main
begin

section \<open>Tensors and errors\<close>

text \<open>
  A tensor is its shape together with its entries, read by multi-index. Entries are real
  numbers: the model is the exact arithmetic that the floating-point program approximates.
  Only the entries whose index lies inside the shape are meaningful.
\<close>

record tensor =
  shape :: "nat list"
  el :: "nat list \<Rightarrow> real"

text \<open>
  Every exception of the source is a value. \<open>ShapeError\<close> stands for einops' EinopsError
  and for the RuntimeError that torch raises on incompatible sizes.
\<close>

datatype error = ShapeError | ZeroDivisionError | ValueError | IndexError

definition and_then :: "error + 'a \<Rightarrow> ('a \<Rightarrow> error + 'b) \<Rightarrow> error + 'b" where
  "and_then m f = (case m of Inl e \<Rightarrow> Inl e | Inr v \<Rightarrow> f v)"

text \<open>A parameter or module is named by its path in the module tree.\<close>

datatype seg = Name string | Idx nat

type_synonym path = "seg list"

text \<open>
  What a forward pass takes from outside the repository: the training flag of the modules,
  the elementwise function of torch.nn.GELU, and for every Dropout module (named by its
  path) the mask it samples in this pass.
\<close>

record ctx =
  training :: bool
  gelu :: "real \<Rightarrow> real"
  keep :: "path \<Rightarrow> nat list \<Rightarrow> bool"

section \<open>Library layers\<close>

subsection \<open>Broadcasting addition\<close>

text \<open>Shapes are aligned at the last axis; the lists here are reversed shapes.\<close>

fun broadcast_rev :: "nat list \<Rightarrow> nat list \<Rightarrow> nat list option" where
  "broadcast_rev [] ys = Some ys"
| "broadcast_rev (x # xs) [] = Some (x # xs)"
| "broadcast_rev (x # xs) (y # ys) =
     (if x = y \<or> y = 1 then map_option ((#) x) (broadcast_rev xs ys)
      else if x = 1 then map_option ((#) y) (broadcast_rev xs ys)
      else None)"

definition bidx :: "nat list \<Rightarrow> nat list \<Rightarrow> nat list" where
  "bidx s idx = map2 (\<lambda>d i. if d = 1 then 0 else i) s (drop (length idx - length s) idx)"

definition add_t :: "tensor \<Rightarrow> tensor \<Rightarrow> error + tensor" where
  "add_t a b =
     (case broadcast_rev (rev (shape a)) (rev (shape b)) of
        None \<Rightarrow> Inl ShapeError
      | Some r \<Rightarrow> Inr \<lparr>shape = rev r,
                       el = (\<lambda>idx. el a (bidx (shape a) idx) + el b (bidx (shape b) idx))\<rparr>)"

definition unsqueeze0 :: "tensor \<Rightarrow> tensor" where
  "unsqueeze0 t = \<lparr>shape = 1 # shape t, el = (\<lambda>idx. el t (tl idx))\<rparr>"

subsection \<open>Linear\<close>

record Linear =
  in_features :: nat
  out_features :: nat
  weight :: tensor
  bias :: "tensor option"

definition Linear_init :: "(path \<Rightarrow> nat list \<Rightarrow> real) \<Rightarrow> path \<Rightarrow> nat \<Rightarrow> nat \<Rightarrow> bool \<Rightarrow> Linear" where
  "Linear_init \<theta> p i out b =
     \<lparr>in_features = i, out_features = out,
      weight = \<lparr>shape = [out, i], el = \<theta> (p @ [Name ''weight''])\<rparr>,
      bias = (if b then Some \<lparr>shape = [out], el = \<theta> (p @ [Name ''bias''])\<rparr> else None)\<rparr>"

definition Linear_forward :: "Linear \<Rightarrow> tensor \<Rightarrow> error + tensor" where
  "Linear_forward l x =
     (if shape x = [] \<or> last (shape x) \<noteq> in_features l then Inl ShapeError
      else Inr \<lparr>shape = butlast (shape x) @ [out_features l],
                el = (\<lambda>idx.
                  (\<Sum>i\<leftarrow>[0..<in_features l]. el x (butlast idx @ [i]) * el (weight l) [last idx, i])
                  + (case bias l of None \<Rightarrow> 0 | Some b \<Rightarrow> el b [last idx]))\<rparr>)"

subsection \<open>LayerNorm\<close>

record LayerNorm =
  normalized_shape :: nat
  ln_weight :: tensor
  ln_bias :: tensor
  eps :: real

definition LayerNorm_init :: "nat \<Rightarrow> LayerNorm" where
  "LayerNorm_init d =
     \<lparr>normalized_shape = d,
      ln_weight = \<lparr>shape = [d], el = (\<lambda>_. 1)\<rparr>,
      ln_bias = \<lparr>shape = [d], el = (\<lambda>_. 0)\<rparr>,
      eps = 1 / 100000\<rparr>"

definition mean_last :: "tensor \<Rightarrow> nat list \<Rightarrow> real" where
  "mean_last x idx =
     (\<Sum>j\<leftarrow>[0..<last (shape x)]. el x (butlast idx @ [j])) / real (last (shape x))"

definition var_last :: "tensor \<Rightarrow> nat list \<Rightarrow> real" where
  "var_last x idx =
     (\<Sum>j\<leftarrow>[0..<last (shape x)]. (el x (butlast idx @ [j]) - mean_last x idx)\<^sup>2)
       / real (last (shape x))"

definition LayerNorm_forward :: "LayerNorm \<Rightarrow> tensor \<Rightarrow> error + tensor" where
  "LayerNorm_forward nm x =
     (if shape x = [] \<or> last (shape x) \<noteq> normalized_shape nm then Inl ShapeError
      else Inr \<lparr>shape = shape x,
                el = (\<lambda>idx. (el x idx - mean_last x idx) / sqrt (var_last x idx + eps nm)
                               * el (ln_weight nm) [last idx] + el (ln_bias nm) [last idx])\<rparr>)"

text \<open>A slot that holds either a LayerNorm or nn.Identity.\<close>

datatype norm_slot = Norm LayerNorm | NoNorm

fun norm_slot_forward :: "norm_slot \<Rightarrow> tensor \<Rightarrow> error + tensor" where
  "norm_slot_forward (Norm nm) x = LayerNorm_forward nm x"
| "norm_slot_forward NoNorm x = Inr x"

subsection \<open>Dropout\<close>

record Dropout =
  p_drop :: real
  site :: path

definition Dropout_init :: "path \<Rightarrow> real \<Rightarrow> error + Dropout" where
  "Dropout_init pth p =
     (if p < 0 \<or> 1 < p then Inl ValueError else Inr \<lparr>p_drop = p, site = pth\<rparr>)"

definition Dropout_forward :: "ctx \<Rightarrow> Dropout \<Rightarrow> tensor \<Rightarrow> tensor" where
  "Dropout_forward c d x =
     (if \<not> training c \<or> p_drop d = 0 then x
      else if p_drop d = 1 then \<lparr>shape = shape x, el = (\<lambda>_. 0)\<rparr>
      else \<lparr>shape = shape x,
            el = (\<lambda>idx. if keep c (site d) idx then el x idx / (1 - p_drop d) else 0)\<rparr>)"

section \<open>PatchEmbed\<close>

text \<open>
  einops \<open>rearrange(x, "b c (h p1) (w p2) -> b (h w) (p1 p2 c)", p1, p2)\<close>: the
  height is divided by \<open>p1\<close> and the width by \<open>p2\<close> (a zero divisor raises, a
  remainder is a shape error), position \<open>k = hi * w + wi\<close> is patch \<open>(hi, wi)\<close>, and
  entry \<open>j = (i1 * p2 + i2) * c + ci\<close> of it is pixel \<open>(hi * p1 + i1, wi * p2 + i2)\<close> of
  channel \<open>ci\<close>.
\<close>

definition rearrange_patches :: "nat \<Rightarrow> nat \<Rightarrow> tensor \<Rightarrow> error + tensor" where
  "rearrange_patches p1 p2 x =
     (case shape x of
        [b, c, H, W] \<Rightarrow>
          if p1 = 0 \<or> p2 = 0 then Inl ZeroDivisionError
          else if H mod p1 \<noteq> 0 \<or> W mod p2 \<noteq> 0 then Inl ShapeError
          else Inr \<lparr>shape = [b, (H div p1) * (W div p2), p1 * p2 * c],
                    el = (\<lambda>idx. case idx of
                            [bi, k, j] \<Rightarrow>
                              el x [bi, j mod c,
                                    (k div (W div p2)) * p1 + (j div c) div p2,
                                    (k mod (W div p2)) * p2 + (j div c) mod p2]
                          | _ \<Rightarrow> 0)\<rparr>
      | _ \<Rightarrow> Inl ShapeError)"

record PatchEmbed =
  patch_height :: nat
  patch_width :: nat
  pre_norm :: norm_slot
  post_norm :: norm_slot
  proj :: Linear

text \<open>The \<open>patch_size\<close> argument is an int or a pair.\<close>

datatype patch_arg = PInt nat | PPair nat nat

fun patch_pair :: "patch_arg \<Rightarrow> nat \<times> nat" where
  "patch_pair (PInt n) = (n, n)"
| "patch_pair (PPair a b) = (a, b)"

definition PatchEmbed_init ::
  "(path \<Rightarrow> nat list \<Rightarrow> real) \<Rightarrow> path \<Rightarrow> nat \<Rightarrow> patch_arg \<Rightarrow> nat \<Rightarrow> bool \<Rightarrow> bool \<Rightarrow> bool \<Rightarrow> PatchEmbed" where
  "PatchEmbed_init \<theta> pth channels patch_size out_dim b pre post =
     (let ps = patch_pair patch_size;
          patch_dim = channels * fst ps * snd ps
      in \<lparr>patch_height = fst ps, patch_width = snd ps,
          pre_norm = (if pre then Norm (LayerNorm_init patch_dim) else NoNorm),
          post_norm = (if post then Norm (LayerNorm_init out_dim) else NoNorm),
          proj = Linear_init \<theta> (pth @ [Name ''proj'']) patch_dim out_dim b\<rparr>)"

definition PatchEmbed_forward :: "PatchEmbed \<Rightarrow> tensor \<Rightarrow> error + tensor" where
  "PatchEmbed_forward pe x =
     and_then (rearrange_patches (patch_height pe) (patch_width pe) x) (\<lambda>x1.
     and_then (norm_slot_forward (pre_norm pe) x1) (\<lambda>x2.
     and_then (Linear_forward (proj pe) x2) (\<lambda>x3.
     norm_slot_forward (post_norm pe) x3)))"

section \<open>FeedForward\<close>

definition gelu_t :: "ctx \<Rightarrow> tensor \<Rightarrow> tensor" where
  "gelu_t c x = \<lparr>shape = shape x, el = (\<lambda>idx. gelu c (el x idx))\<rparr>"

text \<open>The five modules of \<open>net\<close>; GELU, at index 1, has no state.\<close>

record FeedForward =
  net0 :: Linear
  net2 :: Dropout
  net3 :: Linear
  net4 :: Dropout

definition FeedForward_init ::
  "(path \<Rightarrow> nat list \<Rightarrow> real) \<Rightarrow> path \<Rightarrow> nat \<Rightarrow> nat \<Rightarrow> real \<Rightarrow> error + FeedForward" where
  "FeedForward_init \<theta> pth dimn hidden_dim dropout =
     and_then (Dropout_init (pth @ [Name ''net'', Idx 2]) dropout) (\<lambda>d2.
     and_then (Dropout_init (pth @ [Name ''net'', Idx 4]) dropout) (\<lambda>d4.
     Inr \<lparr>net0 = Linear_init \<theta> (pth @ [Name ''net'', Idx 0]) dimn hidden_dim True,
          net2 = d2,
          net3 = Linear_init \<theta> (pth @ [Name ''net'', Idx 3]) hidden_dim dimn True,
          net4 = d4\<rparr>))"

definition FeedForward_forward :: "ctx \<Rightarrow> FeedForward \<Rightarrow> tensor \<Rightarrow> error + tensor" where
  "FeedForward_forward c f x =
     and_then (Linear_forward (net0 f) x) (\<lambda>h.
     and_then (Linear_forward (net3 f) (Dropout_forward c (net2 f) (gelu_t c h))) (\<lambda>y.
     Inr (Dropout_forward c (net4 f) y)))"

section \<open>Attention\<close>

text \<open>
  \<open>chunk(3, dim = -1)\<close>: pieces of \<open>ceil(L / 3)\<close> entries along the last axis; unpacking
  into \<open>q, k, v\<close> raises unless there are three of them (an axis of length 0 gives three
  empty pieces).
\<close>

definition slice_last :: "nat \<Rightarrow> nat \<Rightarrow> tensor \<Rightarrow> tensor" where
  "slice_last start len x =
     \<lparr>shape = butlast (shape x) @ [len],
      el = (\<lambda>idx. el x (butlast idx @ [start + last idx]))\<rparr>"

definition chunk3 :: "tensor \<Rightarrow> error + tensor \<times> tensor \<times> tensor" where
  "chunk3 x =
     (if shape x = [] then Inl IndexError
      else let L = last (shape x); cs = (L + 2) div 3
           in if L \<noteq> 0 \<and> (L + cs - 1) div cs \<noteq> 3 then Inl ValueError
              else Inr (slice_last 0 cs x, slice_last cs cs x, slice_last (2 * cs) (L - 2 * cs) x))"

text \<open>einops \<open>rearrange(t, "b n (h d) -> b h n d", h = heads)\<close>.\<close>

definition split_heads :: "nat \<Rightarrow> tensor \<Rightarrow> error + tensor" where
  "split_heads h t =
     (case shape t of
        [b, n, m] \<Rightarrow>
          if h = 0 then Inl ZeroDivisionError
          else if m mod h \<noteq> 0 then Inl ShapeError
          else Inr \<lparr>shape = [b, h, n, m div h],
                    el = (\<lambda>idx. case idx of
                            [bi, hi, ni, di] \<Rightarrow> el t [bi, ni, hi * (m div h) + di]
                          | _ \<Rightarrow> 0)\<rparr>
      | _ \<Rightarrow> Inl ShapeError)"

text \<open>einops \<open>rearrange(out, "b h n d -> b n (h d)")\<close>.\<close>

definition merge_heads :: "tensor \<Rightarrow> error + tensor" where
  "merge_heads t =
     (case shape t of
        [b, h, n, d] \<Rightarrow>
          Inr \<lparr>shape = [b, n, h * d],
               el = (\<lambda>idx. case idx of
                       [bi, ni, j] \<Rightarrow> el t [bi, j div d, ni, j mod d]
                     | _ \<Rightarrow> 0)\<rparr>
      | _ \<Rightarrow> Inl ShapeError)"

definition swap_last2 :: "nat list \<Rightarrow> nat list" where
  "swap_last2 xs = take (length xs - 2) xs @ [last xs, xs ! (length xs - 2)]"

text \<open>\<open>t.transpose(-1, -2)\<close>.\<close>

definition transpose_last :: "tensor \<Rightarrow> error + tensor" where
  "transpose_last t =
     (if length (shape t) < 2 then Inl IndexError
      else Inr \<lparr>shape = swap_last2 (shape t), el = (\<lambda>idx. el t (swap_last2 idx))\<rparr>)"

text \<open>
  \<open>torch.matmul\<close> on two tensors of the same rank, at least 2, with the same leading
  axes: the only way the source calls it.
\<close>

definition matmul :: "tensor \<Rightarrow> tensor \<Rightarrow> error + tensor" where
  "matmul a b =
     (let sa = shape a; sb = shape b
      in if length sa < 2 \<or> length sb \<noteq> length sa
            \<or> take (length sa - 2) sa \<noteq> take (length sb - 2) sb
            \<or> last sa \<noteq> sb ! (length sb - 2)
         then Inl ShapeError
         else Inr \<lparr>shape = butlast sa @ [last sb],
                   el = (\<lambda>idx. \<Sum>t\<leftarrow>[0..<last sa].
                           el a (butlast idx @ [t]) * el b (take (length idx - 2) idx @ [t, last idx]))\<rparr>)"

definition scale_t :: "real \<Rightarrow> tensor \<Rightarrow> tensor" where
  "scale_t s x = \<lparr>shape = shape x, el = (\<lambda>idx. el x idx * s)\<rparr>"

text \<open>\<open>nn.Softmax(dim = -1)\<close>.\<close>

definition softmax_last :: "tensor \<Rightarrow> tensor" where
  "softmax_last x =
     \<lparr>shape = shape x,
      el = (\<lambda>idx. exp (el x idx) / (\<Sum>j\<leftarrow>[0..<last (shape x)]. exp (el x (butlast idx @ [j]))))\<rparr>"

datatype out_proj = Project Linear Dropout | Identity

record Attention =
  heads :: nat
  attn_scale :: real
  to_qkv :: Linear
  to_out :: out_proj

definition Attention_init ::
  "(path \<Rightarrow> nat list \<Rightarrow> real) \<Rightarrow> path \<Rightarrow> nat \<Rightarrow> nat \<Rightarrow> nat \<Rightarrow> real \<Rightarrow> error + Attention" where
  "Attention_init \<theta> pth dimn hds dim_head dropout =
     (let inner_dim = dim_head * hds;
          project_out = \<not> (hds = 1 \<and> dim_head = dimn)
      in if dim_head = 0 then Inl ZeroDivisionError
         else and_then
           (if project_out
            then and_then (Dropout_init (pth @ [Name ''to_out'', Idx 1]) dropout) (\<lambda>d.
                 Inr (Project (Linear_init \<theta> (pth @ [Name ''to_out'', Idx 0]) inner_dim dimn True) d))
            else Inr Identity) (\<lambda>out.
           Inr \<lparr>heads = hds,
                attn_scale = real dim_head powr (- (1 / 2)),
                to_qkv = Linear_init \<theta> (pth @ [Name ''to_qkv'']) dimn (inner_dim * 3) False,
                to_out = out\<rparr>))"

fun out_proj_forward :: "ctx \<Rightarrow> out_proj \<Rightarrow> tensor \<Rightarrow> error + tensor" where
  "out_proj_forward c (Project l d) x =
     and_then (Linear_forward l x) (\<lambda>y. Inr (Dropout_forward c d y))"
| "out_proj_forward c Identity x = Inr x"

text \<open>Lines 73 and 74: the three projections, one axis per head.\<close>

definition Attention_qkv :: "Attention \<Rightarrow> tensor \<Rightarrow> error + tensor \<times> tensor \<times> tensor" where
  "Attention_qkv a x =
     and_then (Linear_forward (to_qkv a) x) (\<lambda>y.
     and_then (chunk3 y) (\<lambda>(q, k, v).
     and_then (split_heads (heads a) q) (\<lambda>q'.
     and_then (split_heads (heads a) k) (\<lambda>k'.
     and_then (split_heads (heads a) v) (\<lambda>v'.
     Inr (q', k', v'))))))"

text \<open>Lines 76 and 78: \<open>dots\<close>.\<close>

definition Attention_dots :: "Attention \<Rightarrow> tensor \<Rightarrow> tensor \<Rightarrow> error + tensor" where
  "Attention_dots a q k =
     and_then (transpose_last k) (\<lambda>kt.
     and_then (matmul q kt) (\<lambda>m.
     Inr (scale_t (attn_scale a) m)))"

text \<open>Line 78: \<open>attn\<close>.\<close>

definition Attention_attn :: "Attention \<Rightarrow> tensor \<Rightarrow> tensor \<Rightarrow> error + tensor" where
  "Attention_attn a q k = and_then (Attention_dots a q k) (\<lambda>dots. Inr (softmax_last dots))"

text \<open>Lines 73 to 81: \<open>out\<close>, as it reaches \<open>to_out\<close>.\<close>

definition Attention_out :: "Attention \<Rightarrow> tensor \<Rightarrow> error + tensor" where
  "Attention_out a x =
     and_then (Attention_qkv a x) (\<lambda>(q, k, v).
     and_then (Attention_attn a q k) (\<lambda>attn.
     and_then (matmul attn v) (\<lambda>out.
     merge_heads out)))"

definition Attention_forward :: "ctx \<Rightarrow> Attention \<Rightarrow> tensor \<Rightarrow> error + tensor" where
  "Attention_forward c a x = and_then (Attention_out a x) (out_proj_forward c (to_out a))"

section \<open>PreNorm and Transformer\<close>

datatype sublayer = AttentionL Attention | FeedForwardL FeedForward

fun sublayer_forward :: "ctx \<Rightarrow> sublayer \<Rightarrow> tensor \<Rightarrow> error + tensor" where
  "sublayer_forward c (AttentionL a) x = Attention_forward c a x"
| "sublayer_forward c (FeedForwardL f) x = FeedForward_forward c f x"

record PreNorm =
  pn_norm :: LayerNorm
  pn_fn :: sublayer

definition PreNorm_init :: "nat \<Rightarrow> sublayer \<Rightarrow> PreNorm" where
  "PreNorm_init dimn f = \<lparr>pn_norm = LayerNorm_init dimn, pn_fn = f\<rparr>"

definition PreNorm_forward :: "ctx \<Rightarrow> PreNorm \<Rightarrow> tensor \<Rightarrow> error + tensor" where
  "PreNorm_forward c p x =
     and_then (LayerNorm_forward (pn_norm p) x) (\<lambda>y. sublayer_forward c (pn_fn p) y)"

record Transformer =
  attentions :: "PreNorm list"
  ffns :: "PreNorm list"

text \<open>A list comprehension stops at the first constructor that raises.\<close>

fun collect :: "(error + 'a) list \<Rightarrow> error + 'a list" where
  "collect [] = Inr []"
| "collect (m # ms) = and_then m (\<lambda>v. and_then (collect ms) (\<lambda>vs. Inr (v # vs)))"

definition Transformer_init ::
  "(path \<Rightarrow> nat list \<Rightarrow> real) \<Rightarrow> path \<Rightarrow> nat \<Rightarrow> nat \<Rightarrow> nat \<Rightarrow> nat \<Rightarrow> nat \<Rightarrow> real \<Rightarrow> error + Transformer" where
  "Transformer_init \<theta> pth dimn depth hds dim_head mlp_dim dropout =
     and_then (collect (map (\<lambda>i.
        and_then (Attention_init \<theta> (pth @ [Name ''attentions'', Idx i, Name ''fn'']) dimn hds dim_head dropout)
          (\<lambda>a. Inr (PreNorm_init dimn (AttentionL a)))) [0..<depth])) (\<lambda>as.
     and_then (collect (map (\<lambda>i.
        and_then (FeedForward_init \<theta> (pth @ [Name ''ffns'', Idx i, Name ''fn'']) dimn mlp_dim dropout)
          (\<lambda>f. Inr (PreNorm_init dimn (FeedForwardL f)))) [0..<depth])) (\<lambda>fs.
     Inr \<lparr>attentions = as, ffns = fs\<rparr>))"

text \<open>The loop body at index \<open>i\<close>, then the rest of the range.\<close>

fun Transformer_loop :: "ctx \<Rightarrow> Transformer \<Rightarrow> nat list \<Rightarrow> tensor \<Rightarrow> error + tensor" where
  "Transformer_loop c t [] x = Inr x"
| "Transformer_loop c t (i # rest) x =
     (if length (attentions t) \<le> i then Inl IndexError
      else and_then (PreNorm_forward c (attentions t ! i) x) (\<lambda>a.
           and_then (add_t a x) (\<lambda>x1.
           if length (ffns t) \<le> i then Inl IndexError
           else and_then (PreNorm_forward c (ffns t ! i) x1) (\<lambda>f.
                and_then (add_t f x1) (\<lambda>x2.
                Transformer_loop c t rest x2)))))"

definition Transformer_forward :: "ctx \<Rightarrow> Transformer \<Rightarrow> tensor \<Rightarrow> error + tensor" where
  "Transformer_forward c t x = Transformer_loop c t [0..<length (attentions t)] x"

section \<open>AttnPooler\<close>

record AttnPooler =
  to_k :: Linear
  to_v :: Linear
  pool_q :: tensor

definition AttnPooler_init :: "(path \<Rightarrow> nat list \<Rightarrow> real) \<Rightarrow> path \<Rightarrow> nat \<Rightarrow> AttnPooler" where
  "AttnPooler_init \<theta> pth dimn =
     \<lparr>to_k = Linear_init \<theta> (pth @ [Name ''to_k'']) dimn dimn True,
      to_v = Linear_init \<theta> (pth @ [Name ''to_v'']) dimn dimn True,
      pool_q = \<lparr>shape = [1, 1, dimn], el = \<theta> (pth @ [Name ''q''])\<rparr>\<rparr>"

text \<open>\<open>q.expand(n, -1, -1)\<close> on a tensor whose first axis has length 1.\<close>

definition expand0 :: "nat \<Rightarrow> tensor \<Rightarrow> tensor" where
  "expand0 n t = \<lparr>shape = n # tl (shape t), el = (\<lambda>idx. el t (0 # tl idx))\<rparr>"

text \<open>\<open>F.scaled_dot_product_attention\<close> with its default arguments.\<close>

definition scaled_dot_product_attention :: "tensor \<Rightarrow> tensor \<Rightarrow> tensor \<Rightarrow> error + tensor" where
  "scaled_dot_product_attention q k v =
     (if shape q = [] then Inl ShapeError
      else and_then (transpose_last k) (\<lambda>kt.
           and_then (matmul q kt) (\<lambda>m.
           matmul (softmax_last (scale_t (1 / sqrt (real (last (shape q)))) m)) v)))"

text \<open>\<open>t.squeeze(1)\<close>: axis 1 goes away when its length is 1.\<close>

definition squeeze1 :: "tensor \<Rightarrow> tensor" where
  "squeeze1 t =
     (case shape t of
        d0 # d1 # ds \<Rightarrow>
          if d1 = 1 then \<lparr>shape = d0 # ds, el = (\<lambda>idx. el t (hd idx # 0 # tl idx))\<rparr> else t
      | _ \<Rightarrow> t)"

definition AttnPooler_forward :: "AttnPooler \<Rightarrow> tensor \<Rightarrow> error + tensor" where
  "AttnPooler_forward pl x =
     and_then (Linear_forward (to_k pl) x) (\<lambda>k.
     and_then (Linear_forward (to_v pl) x) (\<lambda>v.
     and_then (scaled_dot_product_attention (expand0 (hd (shape x)) (pool_q pl)) k v) (\<lambda>out.
     Inr (squeeze1 out))))"

section \<open>VIT\<close>

text \<open>
  The keyword arguments of \<open>VIT.__init__\<close>. Sizes and counts are natural numbers: torch
  rejects a negative size.
\<close>

record config =
  num_layers :: nat
  head_dim :: nat
  cfg_heads :: nat
  mlp_mult :: nat
  cfg_dropout :: real
  emb_dropout :: real
  num_classes :: nat
  in_channels :: nat
  patch_size :: nat
  image_size :: nat

text \<open>The defaults of \<open>VIT.__init__\<close>, which the script uses.\<close>

definition default_config :: config where
  "default_config =
     \<lparr>num_layers = 8, head_dim = 64, cfg_heads = 8, mlp_mult = 4, cfg_dropout = 1 / 10,
      emb_dropout = 1 / 10, num_classes = 10, in_channels = 3, patch_size = 4, image_size = 32\<rparr>"

record VIT =
  patch_embed :: PatchEmbed
  pos_embs :: tensor
  transformer :: Transformer
  out_norm :: LayerNorm
  pooler :: AttnPooler
  proj_out :: Linear

definition VIT_init :: "(path \<Rightarrow> nat list \<Rightarrow> real) \<Rightarrow> config \<Rightarrow> error + VIT" where
  "VIT_init \<theta> cfg =
     (let pe = PatchEmbed_init \<theta> [Name ''patch_embed''] 3 (PInt (patch_size cfg))
                 (head_dim cfg * cfg_heads cfg) True False True;
          dimn = head_dim cfg * cfg_heads cfg
      in if patch_size cfg = 0 then Inl ZeroDivisionError
         else and_then
           (Transformer_init \<theta> [Name ''transformer''] dimn (num_layers cfg) (cfg_heads cfg)
              (head_dim cfg) (dimn * mlp_mult cfg) (cfg_dropout cfg)) (\<lambda>tr.
           Inr \<lparr>patch_embed = pe,
                pos_embs = \<lparr>shape = [(image_size cfg div patch_size cfg)\<^sup>2,
                                      head_dim cfg * cfg_heads cfg],
                            el = \<theta> [Name ''pos_embs'']\<rparr>,
                transformer = tr,
                out_norm = LayerNorm_init dimn,
                pooler = AttnPooler_init \<theta> [Name ''pooler''] dimn,
                proj_out = Linear_init \<theta> [Name ''proj_out''] dimn (num_classes cfg) True\<rparr>))"

definition VIT_forward :: "ctx \<Rightarrow> VIT \<Rightarrow> tensor \<Rightarrow> error + tensor" where
  "VIT_forward c m pixel_values =
     and_then (PatchEmbed_forward (patch_embed m) pixel_values) (\<lambda>x.
     and_then (add_t x (unsqueeze0 (pos_embs m))) (\<lambda>h.
     and_then (Transformer_forward c (transformer m) h) (\<lambda>h1.
     and_then (LayerNorm_forward (out_norm m) h1) (\<lambda>h2.
     and_then (AttnPooler_forward (pooler m) h2) (\<lambda>h3.
     Linear_forward (proj_out m) h3)))))"

section \<open>The script\<close>

text \<open>
  What one worker does that another process can see, in program order: the worker's rank
  comes from the process group, the number of batches of an epoch and the loss of each
  step come from the data.
\<close>

record fsdp_config =
  mesh :: "nat list"
  reshard_after_forward :: bool

datatype module_ref = AttentionRef nat | FfnRef nat | NetRef

datatype split = Train | Test

datatype event =
    Print string
  | PrintLoss nat nat real
  | CIFAR10 split
  | Barrier
  | FullyShard module_ref fsdp_config
  | ProgressUpdate
  | ProgressDescription real

definition debug :: bool where
  "debug = False"

definition print_if_master :: "nat \<Rightarrow> string \<Rightarrow> event list" where
  "print_if_master rank msg = (if rank = 0 \<and> debug then [Print msg] else [])"

text \<open>Lines 202 to 218: the datasets, built with \<open>download=True\<close>.\<close>

definition load_data :: "nat \<Rightarrow> event list" where
  "load_data rank =
     (if rank = 0 then [CIFAR10 Train] else []) @ [Barrier, CIFAR10 Train]
     @ (if rank = 0 then [CIFAR10 Test] else []) @ [Barrier, CIFAR10 Test]"

definition the_fsdp_config :: fsdp_config where
  "the_fsdp_config = \<lparr>mesh = [8], reshard_after_forward = True\<rparr>"

text \<open>Lines 231 to 238.\<close>

definition shard_model :: "nat \<Rightarrow> VIT \<Rightarrow> event list" where
  "shard_model rank net =
     concat (map (\<lambda>i. print_if_master rank ''Sharding attention''
                       @ [FullyShard (AttentionRef i) the_fsdp_config])
               [0..<length (attentions (transformer net))])
     @ concat (map (\<lambda>i. print_if_master rank ''Sharding ffn''
                         @ [FullyShard (FfnRef i) the_fsdp_config])
                 [0..<length (ffns (transformer net))])
     @ print_if_master rank ''Sharding transformer''
     @ [FullyShard NetRef the_fsdp_config]"

text \<open>The progress bar of line 244 is built with \<open>disable = (rank != 0)\<close>.\<close>

definition pbar_update :: "nat \<Rightarrow> event list" where
  "pbar_update rank = (if rank \<noteq> 0 then [] else [ProgressUpdate])"

definition pbar_set_description :: "nat \<Rightarrow> real \<Rightarrow> event list" where
  "pbar_set_description rank l = (if rank \<noteq> 0 then [] else [ProgressDescription l])"

text \<open>The inner loop of lines 247 to 274, with \<open>running_loss\<close> as its state.\<close>

fun epoch_loop :: "nat \<Rightarrow> (nat \<Rightarrow> nat \<Rightarrow> real) \<Rightarrow> nat \<Rightarrow> nat list \<Rightarrow> real \<Rightarrow> event list" where
  "epoch_loop rank loss epoch [] running_loss = []"
| "epoch_loop rank loss epoch (i # rest) running_loss =
     print_if_master rank ''zeroed grad''
     @ print_if_master rank ''got outputs''
     @ print_if_master rank ''got loss''
     @ print_if_master rank ''backprop'd''
     @ print_if_master rank ''stepped''
     @ (if i mod 2000 = 1999
        then [PrintLoss (epoch + 1) (i + 1) ((running_loss + loss epoch i) / 2000)]
        else [])
     @ pbar_update rank
     @ pbar_set_description rank (loss epoch i)
     @ epoch_loop rank loss epoch rest
         (if i mod 2000 = 1999 then 0 else running_loss + loss epoch i)"

definition train :: "nat \<Rightarrow> (nat \<Rightarrow> nat \<Rightarrow> real) \<Rightarrow> nat \<Rightarrow> event list" where
  "train rank loss n_batches =
     concat (map (\<lambda>epoch. epoch_loop rank loss epoch [0..<n_batches] 0) [0..<2])
     @ [Print ''Finished Training'']"

definition script :: "nat \<Rightarrow> VIT \<Rightarrow> (nat \<Rightarrow> nat \<Rightarrow> real) \<Rightarrow> nat \<Rightarrow> event list" where
  "script rank net loss n_batches = load_data rank @ shard_model rank net @ train rank loss n_batches"


section \<open>The specification's reading\<close>



text \<open>
  The flattening of patch \<open>(hi, wi)\<close> of image \<open>bi\<close>: its rows in order, in a row its
  pixels in order, in a pixel its channels in order.
\<close>

definition patch_vector :: "nat \<Rightarrow> nat \<Rightarrow> tensor \<Rightarrow> nat \<Rightarrow> nat \<Rightarrow> nat \<Rightarrow> real list" where
  "patch_vector p1 p2 x bi hi wi =
     concat (map (\<lambda>i1.
       concat (map (\<lambda>i2.
         map (\<lambda>ci. el x [bi, ci, hi * p1 + i1, wi * p2 + i2]) [0..<shape x ! 1])
       [0..<p2]))
     [0..<p1])"

definition vector_t :: "real list \<Rightarrow> tensor" where
  "vector_t v = \<lparr>shape = [length v], el = (\<lambda>idx. v ! last idx)\<rparr>"

text \<open>What the layers of a PatchEmbed make of one flattened patch on its own.\<close>

definition embed_vector :: "PatchEmbed \<Rightarrow> real list \<Rightarrow> error + tensor" where
  "embed_vector pe v =
     and_then (norm_slot_forward (pre_norm pe) (vector_t v)) (\<lambda>x2.
     and_then (Linear_forward (proj pe) x2) (\<lambda>x3.
     norm_slot_forward (post_norm pe) x3))"

text \<open>
  The softmax of a row of scores, and the scores of query position \<open>i\<close> against the
  \<open>n\<close> key positions: \<open>(q \<cdot> k) * dim_head ** -0.5\<close>.
\<close>

definition softmax :: "real list \<Rightarrow> real list" where
  "softmax xs = map (\<lambda>v. exp v / sum_list (map exp xs)) xs"

definition score_row :: "tensor \<Rightarrow> tensor \<Rightarrow> nat \<Rightarrow> nat \<Rightarrow> nat \<Rightarrow> nat \<Rightarrow> nat \<Rightarrow> real list" where
  "score_row q k dim_head bi hi i n =
     map (\<lambda>j. (\<Sum>t\<leftarrow>[0..<dim_head]. el q [bi, hi, i, t] * el k [bi, hi, j, t])
                * real dim_head powr (- (1 / 2)))
       [0..<n]"

section \<open>Concrete inputs\<close>

definition ctx0 :: ctx where
  "ctx0 = \<lparr>training = True, gelu = (\<lambda>v. v), keep = (\<lambda>_ _. True)\<rparr>"

definition theta0 :: "path \<Rightarrow> nat list \<Rightarrow> real" where
  "theta0 = (\<lambda>_ _. 0)"

definition zeros :: "nat list \<Rightarrow> tensor" where
  "zeros s = \<lparr>shape = s, el = (\<lambda>_. 0)\<rparr>"

text \<open>One image of two channels, four by four: pixel \<open>(r, c)\<close> of channel \<open>ch\<close> is \<open>100 * ch + 4 * r + c\<close>.\<close>

definition image0 :: tensor where
  "image0 = \<lparr>shape = [1, 2, 4, 4],
             el = (\<lambda>idx. real (100 * (idx ! 1) + 4 * (idx ! 2) + idx ! 3))\<rparr>"

section \<open>Basic facts\<close>

lemma and_then_Inr [simp]: "and_then (Inr v) f = f v"
  by (simp add: and_then_def)

lemma and_then_Inl [simp]: "and_then (Inl e) f = Inl e"
  by (simp add: and_then_def)




lemma collect_length: "collect ms = Inr vs \<Longrightarrow> length vs = length ms"
  by (induction ms arbitrary: vs) (auto simp: and_then_def split: sum.splits)

lemma Transformer_init_lengths:
  "Transformer_init \<theta> pth dimn depth hds dim_head mlp_dim dropout = Inr t \<Longrightarrow>
     length (attentions t) = depth \<and> length (ffns t) = depth"
  by (auto simp: Transformer_init_def and_then_def split: sum.splits dest!: collect_length)


lemma epoch_loop_prints_loss:
  "i \<in> set js \<Longrightarrow> i mod 2000 = 1999 \<Longrightarrow>
     \<exists>r. PrintLoss (epoch + 1) (i + 1) r \<in> set (epoch_loop rank loss epoch js running)"
proof (induction js arbitrary: running)
  case Nil
  then show ?case by simp
next
  case (Cons j js)
  show ?case
  proof (cases "i = j")
    case True
    then show ?thesis using Cons.prems
      by (intro exI [of _ "(running + loss epoch j) / 2000"]) simp
  next
    case False
    then have "i \<in> set js" using Cons.prems by simp
    from Cons.IH [OF this Cons.prems(2)] show ?thesis by (simp del: epoch_loop.simps add: epoch_loop.simps(2) [of rank loss epoch j js running]) blast
  qed
qed

lemma broadcast_rev_same: "broadcast_rev s s = Some s"
  by (induction s) simp_all

lemma add_t_same_shape:
  "shape a = shape b \<Longrightarrow> \<exists>y. add_t a b = Inr y \<and> shape y = shape b"
  by (simp add: add_t_def broadcast_rev_same)

lemma Linear_forward_shape:
  "shape x = s @ [in_features l] \<Longrightarrow>
     \<exists>y. Linear_forward l x = Inr y \<and> shape y = s @ [out_features l]"
  by (simp add: Linear_forward_def)

lemma Linear_forward_fails:
  "shape x = s @ [d] \<Longrightarrow> d \<noteq> in_features l \<Longrightarrow> Linear_forward l x = Inl ShapeError"
  by (simp add: Linear_forward_def)

lemma LayerNorm_forward_shape:
  "shape x = s @ [normalized_shape nm] \<Longrightarrow>
     \<exists>y. LayerNorm_forward nm x = Inr y \<and> shape y = shape x"
  by (simp add: LayerNorm_forward_def)

lemma Dropout_forward_shape [simp]: "shape (Dropout_forward c d x) = shape x"
  by (simp add: Dropout_forward_def)

lemma gelu_t_shape [simp]: "shape (gelu_t c x) = shape x"
  by (simp add: gelu_t_def)

lemma chunk3_shape:
  assumes sh: "shape x = s @ [m * 3]"
  shows "\<exists>q k v. chunk3 x = Inr (q, k, v) \<and> shape q = s @ [m] \<and> shape k = s @ [m]
           \<and> shape v = s @ [m]"
proof -
  have l: "last (shape x) = m * 3" and ne: "shape x \<noteq> []" and bl: "butlast (shape x) = s"
    using sh by simp_all
  have cs: "(m * 3 + 2) div 3 = m" by simp
  have three: "(m * 3 + m - 1) div m = 3" if "m \<noteq> 0"
  proof -
    have e: "m * 3 + m - 1 = m * 3 + (m - 1)" using that by simp
    show ?thesis unfolding e using that by (subst div_mult_self4) auto
  qed
  have rest: "m * 3 - 2 * m = m" by simp
  have "chunk3 x = Inr (slice_last 0 m x, slice_last m m x, slice_last (2 * m) m x)"
  proof (cases "m = 0")
    case True
    then show ?thesis unfolding chunk3_def Let_def l using ne by simp
  next
    case False
    show ?thesis unfolding chunk3_def Let_def l cs three [OF False] rest using ne by simp
  qed
  then show ?thesis by (simp add: slice_last_def bl)
qed

lemma split_heads_shape:
  "shape t = [b, n, dh * h] \<Longrightarrow> 0 < h \<Longrightarrow>
     \<exists>y. split_heads h t = Inr y \<and> shape y = [b, h, n, dh]"
  by (simp add: split_heads_def)

lemma transpose_last_shape4:
  "shape t = [b, h, n, d] \<Longrightarrow> \<exists>y. transpose_last t = Inr y \<and> shape y = [b, h, d, n]"
  by (simp add: transpose_last_def swap_last2_def)

lemma transpose_last_shape3:
  "shape t = [b, n, d] \<Longrightarrow> \<exists>y. transpose_last t = Inr y \<and> shape y = [b, d, n]"
  by (simp add: transpose_last_def swap_last2_def)

lemma matmul_shape4:
  "shape a = [b, h, n, d] \<Longrightarrow> shape k = [b, h, d, m] \<Longrightarrow>
     \<exists>y. matmul a k = Inr y \<and> shape y = [b, h, n, m]"
  by (simp add: matmul_def Let_def)

lemma matmul_shape3:
  "shape a = [b, n, d] \<Longrightarrow> shape k = [b, d, m] \<Longrightarrow>
     \<exists>y. matmul a k = Inr y \<and> shape y = [b, n, m]"
  by (simp add: matmul_def Let_def)

lemma softmax_last_shape [simp]: "shape (softmax_last x) = shape x"
  by (simp add: softmax_last_def)

lemma scale_t_shape [simp]: "shape (scale_t s x) = shape x"
  by (simp add: scale_t_def)

lemma merge_heads_shape:
  "shape t = [b, h, n, d] \<Longrightarrow> \<exists>y. merge_heads t = Inr y \<and> shape y = [b, n, h * d]"
  by (simp add: merge_heads_def)

lemma Attention_init_fields:
  assumes "Attention_init \<theta> pth dimn hds dim_head dropout = Inr a"
  shows "heads a = hds" "attn_scale a = real dim_head powr (- (1 / 2))"
    "in_features (to_qkv a) = dimn" "out_features (to_qkv a) = dim_head * hds * 3"
    "0 < dim_head"
  using assms
  by (auto simp: Attention_init_def Let_def Linear_init_def and_then_def
        split: if_splits sum.splits)

lemma Attention_qkv_shape:
  assumes a: "Attention_init \<theta> pth dimn hds dim_head dropout = Inr a"
    and h: "0 < hds" and x: "shape x = [b, n, dimn]"
  shows "\<exists>q k v. Attention_qkv a x = Inr (q, k, v) \<and> shape q = [b, hds, n, dim_head]
           \<and> shape k = [b, hds, n, dim_head] \<and> shape v = [b, hds, n, dim_head]"
proof -
  note f = Attention_init_fields [OF a]
  obtain y where y: "Linear_forward (to_qkv a) x = Inr y" "shape y = [b, n] @ [dim_head * hds * 3]"
    using Linear_forward_shape [of x "[b, n]" "to_qkv a"] x f by auto
  obtain q k v where c: "chunk3 y = Inr (q, k, v)" "shape q = [b, n] @ [dim_head * hds]"
      "shape k = [b, n] @ [dim_head * hds]" "shape v = [b, n] @ [dim_head * hds]"
    using chunk3_shape [OF y(2)] by blast
  obtain q' where q: "split_heads hds q = Inr q'" "shape q' = [b, hds, n, dim_head]"
    using split_heads_shape [of q b n dim_head hds] c h by auto
  obtain k' where k: "split_heads hds k = Inr k'" "shape k' = [b, hds, n, dim_head]"
    using split_heads_shape [of k b n dim_head hds] c h by auto
  obtain v' where v: "split_heads hds v = Inr v'" "shape v' = [b, hds, n, dim_head]"
    using split_heads_shape [of v b n dim_head hds] c h by auto
  show ?thesis
    by (simp add: Attention_qkv_def y c q k v f(1))
qed

lemma Attention_attn_shape:
  assumes "shape q = [b, h, n, d]" "shape k = [b, h, m, d]"
  shows "\<exists>w. Attention_attn a q k = Inr w \<and> shape w = [b, h, n, m]"
proof -
  obtain kt where kt: "transpose_last k = Inr kt" "shape kt = [b, h, d, m]"
    using transpose_last_shape4 [OF assms(2)] by blast
  obtain mm where mm: "matmul q kt = Inr mm" "shape mm = [b, h, n, m]"
    using matmul_shape4 [OF assms(1) kt(2)] by blast
  show ?thesis by (simp add: Attention_attn_def Attention_dots_def kt mm)
qed

lemma Attention_out_shape:
  assumes a: "Attention_init \<theta> pth dimn hds dim_head dropout = Inr a"
    and h: "0 < hds" and x: "shape x = [b, n, dimn]"
  shows "\<exists>y. Attention_out a x = Inr y \<and> shape y = [b, n, hds * dim_head]"
proof -
  obtain q k v where qkv: "Attention_qkv a x = Inr (q, k, v)" "shape q = [b, hds, n, dim_head]"
      "shape k = [b, hds, n, dim_head]" "shape v = [b, hds, n, dim_head]"
    using Attention_qkv_shape [OF a h x] by blast
  obtain w where w: "Attention_attn a q k = Inr w" "shape w = [b, hds, n, n]"
    using Attention_attn_shape [OF qkv(2) qkv(3)] by blast
  obtain out where out: "matmul w v = Inr out" "shape out = [b, hds, n, dim_head]"
    using matmul_shape4 [OF w(2) qkv(4)] by blast
  obtain out' where out': "merge_heads out = Inr out'" "shape out' = [b, n, hds * dim_head]"
    using merge_heads_shape [OF out(2)] by blast
  show ?thesis by (simp add: Attention_out_def qkv w out out')
qed

lemma Attention_forward_shape:
  assumes a: "Attention_init \<theta> pth dimn hds dim_head dropout = Inr a"
    and h: "0 < hds" and x: "shape x = [b, n, dimn]"
  shows "\<exists>y. Attention_forward c a x = Inr y \<and> shape y = [b, n, dimn]"
proof -
  obtain out where out: "Attention_out a x = Inr out" "shape out = [b, n, hds * dim_head]"
    using Attention_out_shape [OF a h x] by blast
  show ?thesis
  proof (cases "hds = 1 \<and> dim_head = dimn")
    case True
    then have "to_out a = Identity"
      using a by (auto simp: Attention_init_def split: if_splits)
    then show ?thesis using True out by (simp add: Attention_forward_def)
  next
    case False
    then obtain d where d: "to_out a
        = Project (Linear_init \<theta> (pth @ [Name ''to_out'', Idx 0]) (dim_head * hds) dimn True) d"
      using a by (auto simp: Attention_init_def Let_def and_then_def split: if_splits sum.splits)
    let ?l = "Linear_init \<theta> (pth @ [Name ''to_out'', Idx 0]) (dim_head * hds) dimn True"
    have "shape out = [b, n] @ [in_features ?l]"
      using out by (simp add: Linear_init_def mult.commute)
    from Linear_forward_shape [OF this]
    obtain y where "Linear_forward ?l out = Inr y" "shape y = [b, n] @ [out_features ?l]"
      by blast
    then show ?thesis using out d by (simp add: Attention_forward_def Linear_init_def)
  qed
qed

lemma FeedForward_forward_shape:
  assumes f: "FeedForward_init \<theta> pth dimn hidden dropout = Inr f"
    and x: "shape x = s @ [dimn]"
  shows "\<exists>y. FeedForward_forward c f x = Inr y \<and> shape y = s @ [dimn]"
proof -
  have fl: "in_features (net0 f) = dimn" "out_features (net0 f) = hidden"
      "in_features (net3 f) = hidden" "out_features (net3 f) = dimn"
    using f by (auto simp: FeedForward_init_def Linear_init_def and_then_def split: sum.splits)
  obtain h where h: "Linear_forward (net0 f) x = Inr h" "shape h = s @ [hidden]"
    using Linear_forward_shape [of x s "net0 f"] x fl by auto
  have "shape (Dropout_forward c (net2 f) (gelu_t c h)) = s @ [in_features (net3 f)]"
    using h fl by simp
  from Linear_forward_shape [OF this]
  obtain y where "Linear_forward (net3 f) (Dropout_forward c (net2 f) (gelu_t c h)) = Inr y"
      "shape y = s @ [dimn]"
    using fl by auto
  then show ?thesis by (simp add: FeedForward_forward_def h)
qed

lemma collect_nth:
  "collect ms = Inr vs \<Longrightarrow> i < length ms \<Longrightarrow> ms ! i = Inr (vs ! i)"
proof (induction ms arbitrary: vs i)
  case Nil
  then show ?case by simp
next
  case (Cons m ms)
  then show ?case
    by (cases i) (auto simp: and_then_def split: sum.splits)
qed

lemma collect_all_Inr:
  "(\<And>m. m \<in> set ms \<Longrightarrow> \<exists>v. m = Inr v) \<Longrightarrow> \<exists>vs. collect ms = Inr vs"
proof (induction ms)
  case Nil
  then show ?case by simp
next
  case (Cons m ms)
  obtain v where "m = Inr v" using Cons.prems [of m] by auto
  moreover obtain vs where "collect ms = Inr vs" using Cons by auto
  ultimately show ?case by simp
qed

lemma Transformer_init_attention:
  assumes t: "Transformer_init \<theta> pth dimn depth hds dim_head mlp_dim dropout = Inr t"
    and i: "i < depth"
  shows "\<exists>a. Attention_init \<theta> (pth @ [Name ''attentions'', Idx i, Name ''fn'']) dimn hds dim_head
               dropout = Inr a
           \<and> attentions t ! i = PreNorm_init dimn (AttentionL a)"
proof -
  let ?f = "\<lambda>i. and_then (Attention_init \<theta> (pth @ [Name ''attentions'', Idx i, Name ''fn''])
                dimn hds dim_head dropout) (\<lambda>a. Inr (PreNorm_init dimn (AttentionL a)))"
  have "collect (map ?f [0..<depth]) = Inr (attentions t)"
    using t by (auto simp: Transformer_init_def and_then_def split: sum.splits)
  from collect_nth [OF this, of i] i have "?f i = Inr (attentions t ! i)" by simp
  then show ?thesis by (auto simp: and_then_def split: sum.splits)
qed

lemma Transformer_init_ffn:
  assumes t: "Transformer_init \<theta> pth dimn depth hds dim_head mlp_dim dropout = Inr t"
    and i: "i < depth"
  shows "\<exists>f. FeedForward_init \<theta> (pth @ [Name ''ffns'', Idx i, Name ''fn'']) dimn mlp_dim
               dropout = Inr f
           \<and> ffns t ! i = PreNorm_init dimn (FeedForwardL f)"
proof -
  let ?f = "\<lambda>i. and_then (FeedForward_init \<theta> (pth @ [Name ''ffns'', Idx i, Name ''fn''])
                dimn mlp_dim dropout) (\<lambda>f. Inr (PreNorm_init dimn (FeedForwardL f)))"
  have "collect (map ?f [0..<depth]) = Inr (ffns t)"
    using t by (auto simp: Transformer_init_def and_then_def split: sum.splits)
  from collect_nth [OF this, of i] i have "?f i = Inr (ffns t ! i)" by simp
  then show ?thesis by (auto simp: and_then_def split: sum.splits)
qed

lemma Transformer_block_shape:
  assumes t: "Transformer_init \<theta> pth dimn depth hds dim_head mlp_dim dropout = Inr t"
    and h: "0 < hds" and i: "i < depth" and x: "shape x = [b, n, dimn]"
  shows "\<exists>a x1 f x2. PreNorm_forward c (attentions t ! i) x = Inr a \<and> add_t a x = Inr x1
           \<and> PreNorm_forward c (ffns t ! i) x1 = Inr f \<and> add_t f x1 = Inr x2
           \<and> shape x2 = [b, n, dimn]"
proof -
  obtain att where att: "Attention_init \<theta> (pth @ [Name ''attentions'', Idx i, Name ''fn'']) dimn hds
      dim_head dropout = Inr att" "attentions t ! i = PreNorm_init dimn (AttentionL att)"
    using Transformer_init_attention [OF t i] by blast
  obtain ff where ff: "FeedForward_init \<theta> (pth @ [Name ''ffns'', Idx i, Name ''fn'']) dimn mlp_dim
      dropout = Inr ff" "ffns t ! i = PreNorm_init dimn (FeedForwardL ff)"
    using Transformer_init_ffn [OF t i] by blast
  have nx: "shape x = [b, n] @ [normalized_shape (LayerNorm_init dimn)]"
    using x by (simp add: LayerNorm_init_def)
  obtain y where y: "LayerNorm_forward (LayerNorm_init dimn) x = Inr y" "shape y = [b, n, dimn]"
    using LayerNorm_forward_shape [OF nx] x by auto
  obtain a where a: "Attention_forward c att y = Inr a" "shape a = [b, n, dimn]"
    using Attention_forward_shape [OF att(1) h y(2)] by blast
  obtain x1 where x1: "add_t a x = Inr x1" "shape x1 = [b, n, dimn]"
    using add_t_same_shape [of a x] a x by auto
  have nx1: "shape x1 = [b, n] @ [normalized_shape (LayerNorm_init dimn)]"
    using x1 by (simp add: LayerNorm_init_def)
  obtain y1 where y1: "LayerNorm_forward (LayerNorm_init dimn) x1 = Inr y1"
      "shape y1 = [b, n] @ [dimn]"
    using LayerNorm_forward_shape [OF nx1] x1 by auto
  obtain f where f: "FeedForward_forward c ff y1 = Inr f" "shape f = [b, n] @ [dimn]"
    using FeedForward_forward_shape [OF ff(1) y1(2)] by blast
  obtain x2 where x2: "add_t f x1 = Inr x2" "shape x2 = [b, n, dimn]"
    using add_t_same_shape [of f x1] f x1 by auto
  show ?thesis
    by (simp add: PreNorm_forward_def PreNorm_init_def att(2) ff(2) y a x1 y1 f x2)
qed

lemma Transformer_loop_shape:
  assumes t: "Transformer_init \<theta> pth dimn depth hds dim_head mlp_dim dropout = Inr t"
    and h: "0 < hds"
  shows "\<forall>i \<in> set js. i < depth \<Longrightarrow> shape x = [b, n, dimn] \<Longrightarrow>
           \<exists>y. Transformer_loop c t js x = Inr y \<and> shape y = [b, n, dimn]"
proof (induction js arbitrary: x)
  case Nil
  then show ?case by simp
next
  case (Cons i js)
  have i: "i < depth" using Cons.prems(1) by simp
  obtain a x1 f x2 where s: "PreNorm_forward c (attentions t ! i) x = Inr a" "add_t a x = Inr x1"
      "PreNorm_forward c (ffns t ! i) x1 = Inr f" "add_t f x1 = Inr x2" "shape x2 = [b, n, dimn]"
    using Transformer_block_shape [OF t h i Cons.prems(2)] by blast
  obtain y where "Transformer_loop c t js x2 = Inr y" "shape y = [b, n, dimn]"
    using Cons.IH [OF _ s(5)] Cons.prems(1) by auto
  then show ?case
    using s i Transformer_init_lengths [OF t] by simp
qed

lemma Transformer_forward_shape:
  assumes t: "Transformer_init \<theta> pth dimn depth hds dim_head mlp_dim dropout = Inr t"
    and h: "0 < hds" and x: "shape x = [b, n, dimn]"
  shows "\<exists>y. Transformer_forward c t x = Inr y \<and> shape y = [b, n, dimn]"
  unfolding Transformer_forward_def
  using Transformer_loop_shape [OF t h _ x, of "[0..<length (attentions t)]"]
    Transformer_init_lengths [OF t] by simp

lemma rearrange_patches_shape:
  assumes "shape x = [b, ch, H, W]" "0 < p1" "0 < p2" "H mod p1 = 0" "W mod p2 = 0"
  shows "\<exists>r. rearrange_patches p1 p2 x = Inr r
           \<and> shape r = [b, (H div p1) * (W div p2), p1 * p2 * ch]"
  using assms by (simp add: rearrange_patches_def)

lemma rearrange_patches_fails:
  assumes "shape x = [b, ch, H, W]" "0 < p1" "0 < p2" "H mod p1 \<noteq> 0 \<or> W mod p2 \<noteq> 0"
  shows "rearrange_patches p1 p2 x = Inl ShapeError"
  using assms by (auto simp: rearrange_patches_def)

lemma norm_slot_forward_shape:
  "shape x = s @ [d] \<Longrightarrow>
     \<exists>y. norm_slot_forward (if flag then Norm (LayerNorm_init d) else NoNorm) x = Inr y
       \<and> shape y = s @ [d]"
  using LayerNorm_forward_shape [of x s "LayerNorm_init d"]
  by (auto simp: LayerNorm_init_def)

lemma PatchEmbed_forward_shape:
  assumes x: "shape x = [b, ch, H, W]" and p: "0 < p1" "0 < p2"
    and dv: "H mod p1 = 0" "W mod p2 = 0" and ps: "patch_pair psz = (p1, p2)"
  shows "\<exists>y. PatchEmbed_forward (PatchEmbed_init \<theta> pth ch psz out_dim bs pre post) x = Inr y
           \<and> shape y = [b, (H div p1) * (W div p2), out_dim]"
proof -
  let ?pe = "PatchEmbed_init \<theta> pth ch psz out_dim bs pre post"
  have pe: "patch_height ?pe = p1" "patch_width ?pe = p2"
      "pre_norm ?pe = (if pre then Norm (LayerNorm_init (ch * p1 * p2)) else NoNorm)"
      "post_norm ?pe = (if post then Norm (LayerNorm_init out_dim) else NoNorm)"
      "in_features (proj ?pe) = ch * p1 * p2" "out_features (proj ?pe) = out_dim"
    using ps by (simp_all add: PatchEmbed_init_def Let_def Linear_init_def)
  obtain r where r: "rearrange_patches p1 p2 x = Inr r"
      "shape r = [b, (H div p1) * (W div p2)] @ [ch * p1 * p2]"
    using rearrange_patches_shape [OF x p dv] by (auto simp: mult_ac)
  obtain x2 where x2: "norm_slot_forward (pre_norm ?pe) r = Inr x2"
      "shape x2 = [b, (H div p1) * (W div p2)] @ [in_features (proj ?pe)]"
    unfolding pe using norm_slot_forward_shape [OF r(2)] by blast
  obtain x3 where x3: "Linear_forward (proj ?pe) x2 = Inr x3"
      "shape x3 = [b, (H div p1) * (W div p2)] @ [out_dim]"
    using Linear_forward_shape [OF x2(2)] pe by auto
  obtain y where y: "norm_slot_forward (post_norm ?pe) x3 = Inr y"
      "shape y = [b, (H div p1) * (W div p2)] @ [out_dim]"
    unfolding pe using norm_slot_forward_shape [OF x3(2)] by blast
  show ?thesis
    using y by (simp add: PatchEmbed_forward_def pe(1,2) r x2 x3)
qed

lemma AttnPooler_forward_shape:
  assumes x: "shape x = [b, n, d]"
  shows "\<exists>y. AttnPooler_forward (AttnPooler_init \<theta> pth d) x = Inr y \<and> shape y = [b, d]"
proof -
  let ?pl = "AttnPooler_init \<theta> pth d"
  have pl: "in_features (to_k ?pl) = d" "out_features (to_k ?pl) = d"
      "in_features (to_v ?pl) = d" "out_features (to_v ?pl) = d" "shape (pool_q ?pl) = [1, 1, d]"
    by (simp_all add: AttnPooler_init_def Linear_init_def)
  have xs: "shape x = [b, n] @ [d]" using x by simp
  obtain k where k: "Linear_forward (to_k ?pl) x = Inr k" "shape k = [b, n, d]"
    using Linear_forward_shape [of x "[b, n]" "to_k ?pl"] xs pl by auto
  obtain v where v: "Linear_forward (to_v ?pl) x = Inr v" "shape v = [b, n, d]"
    using Linear_forward_shape [of x "[b, n]" "to_v ?pl"] xs pl by auto
  let ?q = "expand0 (hd (shape x)) (pool_q ?pl)"
  have q: "shape ?q = [b, 1, d]" using x pl by (simp add: expand0_def)
  obtain kt where kt: "transpose_last k = Inr kt" "shape kt = [b, d, n]"
    using transpose_last_shape3 [OF k(2)] by blast
  obtain m where m: "matmul ?q kt = Inr m" "shape m = [b, 1, n]"
    using matmul_shape3 [OF q kt(2)] by blast
  let ?w = "softmax_last (scale_t (1 / sqrt (real d)) m)"
  have w: "shape ?w = [b, 1, n]" using m by simp
  obtain out where out: "matmul ?w v = Inr out" "shape out = [b, 1, d]"
    using matmul_shape3 [OF w v(2)] by blast
  have "shape (squeeze1 out) = [b, d]" using out by (simp add: squeeze1_def)
  then show ?thesis
    using q by (simp add: AttnPooler_forward_def scaled_dot_product_attention_def k v kt m out)
qed

lemma add_pos_shape:
  assumes "shape x = [b, n, d]" "shape pos = [P, d]" "n = P \<or> P = 1 \<or> n = 1"
  shows "\<exists>h. add_t x (unsqueeze0 pos) = Inr h
           \<and> shape h = [b, if n = P \<or> P = 1 then n else P, d]"
  using assms by (auto simp: add_t_def unsqueeze0_def)

lemma add_pos_fails:
  assumes "shape x = [b, n, d]" "shape pos = [P, d]" "n \<noteq> P" "P \<noteq> 1" "n \<noteq> 1"
  shows "add_t x (unsqueeze0 pos) = Inl ShapeError"
  using assms by (auto simp: add_t_def unsqueeze0_def)

lemma add_pos_el:
  assumes "shape x = [b, n, d]" "shape pos = [n, d]" "add_t x (unsqueeze0 pos) = Inr h"
    "bi < b" "k < n" "j < d"
  shows "el h [bi, k, j] = el x [bi, k, j] + el pos [k, j]"
proof -
  have "h = \<lparr>shape = [b, n, d],
             el = (\<lambda>idx. el x (bidx (shape x) idx)
                          + el (unsqueeze0 pos) (bidx (shape (unsqueeze0 pos)) idx))\<rparr>"
    using assms(1-3) by (auto simp: add_t_def unsqueeze0_def)
  then show ?thesis
    using assms by (auto simp: bidx_def unsqueeze0_def)
qed

lemma VIT_init_fields:
  assumes "VIT_init \<theta> cfg = Inr m"
  shows "0 < patch_size cfg"
    "patch_embed m = PatchEmbed_init \<theta> [Name ''patch_embed''] 3 (PInt (patch_size cfg))
                       (head_dim cfg * cfg_heads cfg) True False True"
    "shape (pos_embs m) = [(image_size cfg div patch_size cfg)\<^sup>2, head_dim cfg * cfg_heads cfg]"
    "Transformer_init \<theta> [Name ''transformer''] (head_dim cfg * cfg_heads cfg) (num_layers cfg)
       (cfg_heads cfg) (head_dim cfg) (head_dim cfg * cfg_heads cfg * mlp_mult cfg)
       (cfg_dropout cfg) = Inr (transformer m)"
    "out_norm m = LayerNorm_init (head_dim cfg * cfg_heads cfg)"
    "pooler m = AttnPooler_init \<theta> [Name ''pooler''] (head_dim cfg * cfg_heads cfg)"
    "proj_out m = Linear_init \<theta> [Name ''proj_out''] (head_dim cfg * cfg_heads cfg)
                    (num_classes cfg) True"
  using assms
  by (auto simp: VIT_init_def Let_def and_then_def split: if_splits sum.splits)

lemma VIT_tail_shape:
  assumes m: "VIT_init \<theta> cfg = Inr m" and hd: "0 < cfg_heads cfg"
    and h: "shape h = [b, n, head_dim cfg * cfg_heads cfg]"
  shows "\<exists>h1 h2 h3 y. Transformer_forward c (transformer m) h = Inr h1
           \<and> LayerNorm_forward (out_norm m) h1 = Inr h2
           \<and> AttnPooler_forward (pooler m) h2 = Inr h3
           \<and> Linear_forward (proj_out m) h3 = Inr y
           \<and> shape y = [b, num_classes cfg]"
proof -
  note f = VIT_init_fields [OF m]
  let ?d = "head_dim cfg * cfg_heads cfg"
  obtain h1 where h1: "Transformer_forward c (transformer m) h = Inr h1" "shape h1 = [b, n, ?d]"
    using Transformer_forward_shape [OF f(4) hd h] by blast
  have "shape h1 = [b, n] @ [normalized_shape (out_norm m)]"
    using h1 f(5) by (simp add: LayerNorm_init_def)
  from LayerNorm_forward_shape [OF this]
  obtain h2 where h2: "LayerNorm_forward (out_norm m) h1 = Inr h2" "shape h2 = [b, n, ?d]"
    using h1 by auto
  obtain h3 where h3: "AttnPooler_forward (pooler m) h2 = Inr h3" "shape h3 = [b, ?d]"
    unfolding f(6) using AttnPooler_forward_shape [OF h2(2)] by blast
  have "shape h3 = [b] @ [in_features (proj_out m)]"
    using h3 f(7) by (simp add: Linear_init_def)
  from Linear_forward_shape [OF this]
  obtain y where "Linear_forward (proj_out m) h3 = Inr y" "shape y = [b, num_classes cfg]"
    using f(7) by (auto simp: Linear_init_def)
  then show ?thesis using h1 h2 h3 by blast
qed

lemma VIT_patch_shape:
  assumes m: "VIT_init \<theta> cfg = Inr m" and x: "shape x = [b, 3, H, W]"
    and dv: "H mod patch_size cfg = 0" "W mod patch_size cfg = 0"
  shows "\<exists>x1. PatchEmbed_forward (patch_embed m) x = Inr x1
           \<and> shape x1 = [b, (H div patch_size cfg) * (W div patch_size cfg),
                          head_dim cfg * cfg_heads cfg]"
  unfolding VIT_init_fields(2) [OF m]
  using PatchEmbed_forward_shape [OF x VIT_init_fields(1) [OF m] VIT_init_fields(1) [OF m] dv]
  by simp

lemma VIT_forward_ok:
  assumes m: "VIT_init \<theta> cfg = Inr m" and hd: "0 < cfg_heads cfg"
    and x: "shape x = [b, 3, H, W]"
    and dv: "H mod patch_size cfg = 0" "W mod patch_size cfg = 0"
    and bc: "(H div patch_size cfg) * (W div patch_size cfg) = (image_size cfg div patch_size cfg)\<^sup>2
             \<or> (image_size cfg div patch_size cfg)\<^sup>2 = 1
             \<or> (H div patch_size cfg) * (W div patch_size cfg) = 1"
  shows "\<exists>y. VIT_forward c m x = Inr y \<and> shape y = [b, num_classes cfg]"
proof -
  note f = VIT_init_fields [OF m]
  let ?d = "head_dim cfg * cfg_heads cfg"
  let ?n = "(H div patch_size cfg) * (W div patch_size cfg)"
  let ?P = "(image_size cfg div patch_size cfg)\<^sup>2"
  obtain x1 where x1: "PatchEmbed_forward (patch_embed m) x = Inr x1" "shape x1 = [b, ?n, ?d]"
    using VIT_patch_shape [OF m x dv] by blast
  obtain h where h: "add_t x1 (unsqueeze0 (pos_embs m)) = Inr h"
      "shape h = [b, if ?n = ?P \<or> ?P = 1 then ?n else ?P, ?d]"
    using add_pos_shape [OF x1(2) f(3) bc] by blast
  obtain h1 h2 h3 y where "Transformer_forward c (transformer m) h = Inr h1"
      "LayerNorm_forward (out_norm m) h1 = Inr h2" "AttnPooler_forward (pooler m) h2 = Inr h3"
      "Linear_forward (proj_out m) h3 = Inr y" "shape y = [b, num_classes cfg]"
    using VIT_tail_shape [OF m hd h(2)] by blast
  then show ?thesis by (simp add: VIT_forward_def x1 h)
qed

lemma VIT_forward_fails:
  assumes m: "VIT_init \<theta> cfg = Inr m" and x: "shape x = [b, 3, H, W]"
    and bad: "H mod patch_size cfg \<noteq> 0 \<or> W mod patch_size cfg \<noteq> 0
              \<or> ((H div patch_size cfg) * (W div patch_size cfg) \<noteq> (image_size cfg div patch_size cfg)\<^sup>2
                 \<and> (image_size cfg div patch_size cfg)\<^sup>2 \<noteq> 1
                 \<and> (H div patch_size cfg) * (W div patch_size cfg) \<noteq> 1)"
  shows "VIT_forward c m x = Inl ShapeError"
proof (cases "H mod patch_size cfg \<noteq> 0 \<or> W mod patch_size cfg \<noteq> 0")
  case True
  note f = VIT_init_fields [OF m]
  have "rearrange_patches (patch_size cfg) (patch_size cfg) x = Inl ShapeError"
    using rearrange_patches_fails [OF x f(1) f(1) True] .
  then show ?thesis
    by (simp add: VIT_forward_def PatchEmbed_forward_def f(2) PatchEmbed_init_def)
next
  case False
  note f = VIT_init_fields [OF m]
  from False have dv: "H mod patch_size cfg = 0" "W mod patch_size cfg = 0" by simp_all
  obtain x1 where x1: "PatchEmbed_forward (patch_embed m) x = Inr x1"
      "shape x1 = [b, (H div patch_size cfg) * (W div patch_size cfg), head_dim cfg * cfg_heads cfg]"
    using VIT_patch_shape [OF m x dv] by blast
  have "add_t x1 (unsqueeze0 (pos_embs m)) = Inl ShapeError"
    using add_pos_fails [OF x1(2) f(3)] bad False by blast
  then show ?thesis by (simp add: VIT_forward_def x1)
qed

lemma VIT_init_ok:
  assumes "0 < patch_size cfg" "0 < head_dim cfg" "0 \<le> cfg_dropout cfg" "cfg_dropout cfg \<le> 1"
  shows "\<exists>m. VIT_init \<theta> cfg = Inr m"
proof -
  let ?d = "head_dim cfg * cfg_heads cfg"
  have a: "\<exists>vs. collect (map (\<lambda>i.
        and_then (Attention_init \<theta> ([Name ''transformer''] @ [Name ''attentions'', Idx i, Name ''fn''])
           ?d (cfg_heads cfg) (head_dim cfg) (cfg_dropout cfg))
          (\<lambda>a. Inr (PreNorm_init ?d (AttentionL a)))) [0..<num_layers cfg]) = Inr vs"
    by (rule collect_all_Inr) (use assms in \<open>auto simp: Attention_init_def Dropout_init_def Let_def\<close>)
  have b: "\<exists>vs. collect (map (\<lambda>i.
        and_then (FeedForward_init \<theta> ([Name ''transformer''] @ [Name ''ffns'', Idx i, Name ''fn''])
           ?d (?d * mlp_mult cfg) (cfg_dropout cfg))
          (\<lambda>f. Inr (PreNorm_init ?d (FeedForwardL f)))) [0..<num_layers cfg]) = Inr vs"
    by (rule collect_all_Inr) (use assms in \<open>auto simp: FeedForward_init_def Dropout_init_def\<close>)
  from a b assms(1) show ?thesis
    by (auto simp: VIT_init_def Let_def Transformer_init_def)
qed

lemma rearrange_patches_el:
  assumes x: "shape x = [b, ch, H, W]" and p: "0 < p1" "0 < p2"
    and dv: "H mod p1 = 0" "W mod p2 = 0"
    and r: "rearrange_patches p1 p2 x = Inr r"
    and i: "wi < W div p2" "i2 < p2" "ci < ch"
  shows "el r [bi, hi * (W div p2) + wi, (i1 * p2 + i2) * ch + ci]
           = el x [bi, ci, hi * p1 + i1, wi * p2 + i2]"
proof -
  have r': "r = \<lparr>shape = [b, (H div p1) * (W div p2), p1 * p2 * ch],
                 el = (\<lambda>idx. case idx of
                         [bi, k, j] \<Rightarrow>
                           el x [bi, j mod ch,
                                 (k div (W div p2)) * p1 + (j div ch) div p2,
                                 (k mod (W div p2)) * p2 + (j div ch) mod p2]
                       | _ \<Rightarrow> 0)\<rparr>"
    using r x p dv by (simp add: rearrange_patches_def)
  have a: "((i1 * p2 + i2) * ch + ci) mod ch = ci" using i by simp
  have b: "((i1 * p2 + i2) * ch + ci) div ch = i1 * p2 + i2" using i by simp
  have c: "(i1 * p2 + i2) div p2 = i1" "(i1 * p2 + i2) mod p2 = i2" using i by simp_all
  have d: "(hi * (W div p2) + wi) div (W div p2) = hi" "(hi * (W div p2) + wi) mod (W div p2) = wi"
    using i by simp_all
  show ?thesis unfolding r' using i by (simp add: a b c d)
qed

lemma concat_map_upt:
  assumes "\<And>i. i < n \<Longrightarrow> length (f i) = m"
  shows "length (concat (map f [0..<n])) = n * m
       \<and> (\<forall>i j. i < n \<longrightarrow> j < m \<longrightarrow> concat (map f [0..<n]) ! (i * m + j) = f i ! j)"
  using assms
proof (induction n)
  case 0
  then show ?case by simp
next
  case (Suc n)
  then have ih: "length (concat (map f [0..<n])) = n * m"
      "\<And>i j. i < n \<Longrightarrow> j < m \<Longrightarrow> concat (map f [0..<n]) ! (i * m + j) = f i ! j"
    by simp_all
  have ln: "length (f n) = m" using Suc.prems by simp
  have "concat (map f [0..<Suc n]) ! (i * m + j) = f i ! j" if "i < Suc n" "j < m" for i j
  proof (cases "i < n")
    case True
    then have "Suc i \<le> n" by simp
    then have "Suc i * m \<le> n * m" by (rule mult_le_mono1)
    then have "i * m + j < n * m" using that(2) by simp
    then show ?thesis using True that ih by (simp add: nth_append)
  next
    case False
    then have "i = n" using that by simp
    then show ?thesis using ih(1) by (simp add: nth_append)
  qed
  then show ?case using ih(1) ln by simp
qed

lemma patch_vector_length:
  assumes "shape x = [b, ch, H, W]"
  shows "length (patch_vector p1 p2 x bi hi wi) = p1 * (p2 * ch)"
proof -
  let ?row = "\<lambda>i1 i2. map (\<lambda>ci. el x [bi, ci, hi * p1 + i1, wi * p2 + i2]) [0..<ch]"
  let ?blk = "\<lambda>i1. concat (map (?row i1) [0..<p2])"
  have inner: "length (?blk i1) = p2 * ch" for i1
    using concat_map_upt [of p2 "?row i1" ch] by simp
  have "length (concat (map ?blk [0..<p1])) = p1 * (p2 * ch)"
    using concat_map_upt [of p1 ?blk "p2 * ch"] inner by blast
  then show ?thesis using assms by (simp add: patch_vector_def)
qed

lemma patch_vector_nth:
  assumes x: "shape x = [b, ch, H, W]" and i: "i1 < p1" "i2 < p2" "ci < ch"
  shows "patch_vector p1 p2 x bi hi wi ! ((i1 * p2 + i2) * ch + ci)
           = el x [bi, ci, hi * p1 + i1, wi * p2 + i2]"
proof -
  let ?row = "\<lambda>i1 i2. map (\<lambda>ci. el x [bi, ci, hi * p1 + i1, wi * p2 + i2]) [0..<ch]"
  let ?blk = "\<lambda>i1. concat (map (?row i1) [0..<p2])"
  have inner: "length (?blk i1) = p2 * ch
      \<and> (\<forall>i j. i < p2 \<longrightarrow> j < ch \<longrightarrow> ?blk i1 ! (i * ch + j) = ?row i1 i ! j)" for i1
    by (rule concat_map_upt) simp
  have outer: "\<forall>i j. i < p1 \<longrightarrow> j < p2 * ch \<longrightarrow>
      concat (map ?blk [0..<p1]) ! (i * (p2 * ch) + j) = ?blk i ! j"
    using concat_map_upt [of p1 ?blk "p2 * ch"] inner by blast
  have "Suc i2 \<le> p2" using i by simp
  then have "Suc i2 * ch \<le> p2 * ch" by (rule mult_le_mono1)
  then have lt: "i2 * ch + ci < p2 * ch" using i(3) by simp
  have e: "(i1 * p2 + i2) * ch + ci = i1 * (p2 * ch) + (i2 * ch + ci)"
    by (simp add: algebra_simps)
  have "patch_vector p1 p2 x bi hi wi ! ((i1 * p2 + i2) * ch + ci) = ?blk i1 ! (i2 * ch + ci)"
    unfolding e patch_vector_def using outer i(1) lt x by simp
  also have "\<dots> = ?row i1 i2 ! ci" using inner i by blast
  also have "\<dots> = el x [bi, ci, hi * p1 + i1, wi * p2 + i2]" using i by simp
  finally show ?thesis .
qed

lemma rearrange_patches_vector:
  assumes x: "shape x = [b, ch, H, W]" and p: "0 < p1" "0 < p2"
    and dv: "H mod p1 = 0" "W mod p2 = 0"
    and r: "rearrange_patches p1 p2 x = Inr r"
    and w: "wi < W div p2" and j: "j < p1 * p2 * ch"
  shows "el r [bi, hi * (W div p2) + wi, j] = patch_vector p1 p2 x bi hi wi ! j"
proof -
  have ch: "0 < ch" using j by (cases ch) simp_all
  let ?ci = "j mod ch" and ?i2 = "(j div ch) mod p2" and ?i1 = "(j div ch) div p2"
  have ci: "?ci < ch" using ch by simp
  have i2: "?i2 < p2" using p by simp
  have "j div ch < p1 * p2" using j ch by (simp add: less_mult_imp_div_less)
  then have i1: "?i1 < p1" using p by (simp add: less_mult_imp_div_less mult.commute)
  have e: "j = (?i1 * p2 + ?i2) * ch + ?ci" by simp
  have "el r [bi, hi * (W div p2) + wi, (?i1 * p2 + ?i2) * ch + ?ci]
          = el x [bi, ?ci, hi * p1 + ?i1, wi * p2 + ?i2]"
    by (rule rearrange_patches_el [OF x p dv r w i2 ci])
  also have "\<dots> = patch_vector p1 p2 x bi hi wi ! ((?i1 * p2 + ?i2) * ch + ?ci)"
    by (rule patch_vector_nth [OF x i1 i2 ci, symmetric])
  finally show ?thesis using e by simp
qed

lemma Linear_forward_local:
  assumes "Linear_forward l x = Inr y" "Linear_forward l x' = Inr y'"
    and "\<And>j. j < in_features l \<Longrightarrow> el x' (pre' @ [j]) = el x (pre @ [j])"
  shows "el y' (pre' @ [k]) = el y (pre @ [k])"
proof -
  have "(\<Sum>i\<leftarrow>[0..<in_features l]. el x' (pre' @ [i]) * el (weight l) [k, i])
      = (\<Sum>i\<leftarrow>[0..<in_features l]. el x (pre @ [i]) * el (weight l) [k, i])"
    by (rule arg_cong [where f = sum_list]) (simp add: assms(3))
  then show ?thesis
    using assms(1,2) by (auto simp: Linear_forward_def split: if_splits option.splits)
qed

lemma LayerNorm_forward_local:
  assumes "LayerNorm_forward nm x = Inr y" "LayerNorm_forward nm x' = Inr y'"
    and "\<And>j. j < last (shape x) \<Longrightarrow> el x' (pre' @ [j]) = el x (pre @ [j])"
    and "k < last (shape x)"
  shows "el y' (pre' @ [k]) = el y (pre @ [k])"
proof -
  have l: "last (shape x') = last (shape x)"
    using assms(1,2) by (auto simp: LayerNorm_forward_def split: if_splits)
  have m: "mean_last x' (pre' @ [k]) = mean_last x (pre @ [k])"
    unfolding mean_last_def l
    by (rule arg_cong [where f = "\<lambda>xs. sum_list xs / _"]) (simp add: assms(3))
  have v: "var_last x' (pre' @ [k]) = var_last x (pre @ [k])"
    unfolding var_last_def l m
    by (rule arg_cong [where f = "\<lambda>xs. sum_list xs / _"]) (simp add: assms(3))
  show ?thesis
    using assms(1,2) assms(3) [OF assms(4)]
    by (auto simp: LayerNorm_forward_def m v split: if_splits)
qed

lemma norm_slot_forward_local:
  assumes "norm_slot_forward sl x = Inr y" "norm_slot_forward sl x' = Inr y'"
    and "\<And>j. j < last (shape x) \<Longrightarrow> el x' (pre' @ [j]) = el x (pre @ [j])"
    and "k < last (shape x)"
  shows "el y' (pre' @ [k]) = el y (pre @ [k])"
proof (cases sl)
  case (Norm nm)
  then show ?thesis using LayerNorm_forward_local [of nm x y x' y' pre' pre k] assms by simp
next
  case NoNorm
  then show ?thesis using assms by auto
qed

lemma PatchEmbed_forward_stages:
  assumes x: "shape x = [b, ch, H, W]" and p: "0 < p1" "0 < p2"
    and dv: "H mod p1 = 0" "W mod p2 = 0" and ps: "patch_pair psz = (p1, p2)"
    and pe: "pe = PatchEmbed_init \<theta> pth ch psz out_dim bs pre post"
  shows "\<exists>r x2 x3 y. rearrange_patches p1 p2 x = Inr r
           \<and> shape r = [b, (H div p1) * (W div p2), p1 * p2 * ch]
           \<and> norm_slot_forward (pre_norm pe) r = Inr x2
           \<and> Linear_forward (proj pe) x2 = Inr x3
           \<and> shape x3 = [b, (H div p1) * (W div p2), out_dim]
           \<and> norm_slot_forward (post_norm pe) x3 = Inr y
           \<and> shape y = [b, (H div p1) * (W div p2), out_dim]
           \<and> PatchEmbed_forward pe x = Inr y"
proof -
  have f: "patch_height pe = p1" "patch_width pe = p2"
      "pre_norm pe = (if pre then Norm (LayerNorm_init (ch * p1 * p2)) else NoNorm)"
      "post_norm pe = (if post then Norm (LayerNorm_init out_dim) else NoNorm)"
      "in_features (proj pe) = ch * p1 * p2" "out_features (proj pe) = out_dim"
    using ps by (simp_all add: pe PatchEmbed_init_def Let_def Linear_init_def)
  obtain r where r: "rearrange_patches p1 p2 x = Inr r"
      "shape r = [b, (H div p1) * (W div p2)] @ [ch * p1 * p2]"
    using rearrange_patches_shape [OF x p dv] by (auto simp: mult_ac)
  obtain x2 where x2: "norm_slot_forward (pre_norm pe) r = Inr x2"
      "shape x2 = [b, (H div p1) * (W div p2)] @ [in_features (proj pe)]"
    unfolding f using norm_slot_forward_shape [OF r(2)] by blast
  obtain x3 where x3: "Linear_forward (proj pe) x2 = Inr x3"
      "shape x3 = [b, (H div p1) * (W div p2)] @ [out_dim]"
    using Linear_forward_shape [OF x2(2)] f by auto
  obtain y where y: "norm_slot_forward (post_norm pe) x3 = Inr y"
      "shape y = [b, (H div p1) * (W div p2)] @ [out_dim]"
    unfolding f using norm_slot_forward_shape [OF x3(2)] by blast
  have "PatchEmbed_forward pe x = Inr y"
    by (simp add: PatchEmbed_forward_def f(1,2) r x2 x3 y)
  then show ?thesis using r x2 x3 y by (auto simp: mult_ac)
qed

lemma sum_list_exp_pos: "xs \<noteq> [] \<Longrightarrow> 0 < sum_list (map exp (xs :: real list))"
proof (induction xs)
  case Nil
  then show ?case by simp
next
  case (Cons x xs)
  show ?case
  proof (cases "xs = []")
    case True
    then show ?thesis by simp
  next
    case False
    then have "0 < sum_list (map exp xs)" by (rule Cons.IH)
    moreover have "0 < exp x" by simp
    ultimately show ?thesis by (simp add: add_pos_pos)
  qed
qed

lemma softmax_sum: "xs \<noteq> [] \<Longrightarrow> sum_list (softmax xs) = 1"
proof -
  assume ne: "xs \<noteq> []"
  let ?Z = "sum_list (map exp xs)"
  have "sum_list (softmax xs) = (\<Sum>v\<leftarrow>xs. exp v * inverse ?Z)"
    by (simp add: softmax_def divide_inverse)
  also have "\<dots> = ?Z * inverse ?Z"
    by (simp only: sum_list_mult_const)
  also have "\<dots> = 1" using sum_list_exp_pos [OF ne] by simp
  finally show ?thesis .
qed

lemma Attention_attn_el:
  assumes "shape q = [b, h, n, d]" "shape k = [b, h, m, d]" "Attention_attn a q k = Inr w"
  shows "el w [bi, hi, i, j]
           = exp ((\<Sum>t\<leftarrow>[0..<d]. el q [bi, hi, i, t] * el k [bi, hi, j, t]) * attn_scale a)
             / (\<Sum>j'\<leftarrow>[0..<m]. exp ((\<Sum>t\<leftarrow>[0..<d]. el q [bi, hi, i, t] * el k [bi, hi, j', t])
                                       * attn_scale a))"
  using assms
  by (auto simp: Attention_attn_def Attention_dots_def transpose_last_def matmul_def Let_def
        softmax_last_def scale_t_def swap_last2_def)

lemma Attention_init_small:
  "\<exists>a. Attention_init theta0 [] 4 2 2 0 = Inr a"
  by (simp add: Attention_init_def Dropout_init_def Let_def)

lemma Attention_init_single_head:
  "\<exists>a. Attention_init theta0 [] 4 1 4 0 = Inr a"
  by (simp add: Attention_init_def Dropout_init_def Let_def)

lemma VIT_init_default: "\<exists>m. VIT_init theta0 default_config = Inr m"
  by (rule VIT_init_ok) (simp_all add: default_config_def)

lemma VIT_init_one_patch: "\<exists>m. VIT_init theta0 (default_config\<lparr>image_size := 4\<rparr>) = Inr m"
  by (rule VIT_init_ok) (simp_all add: default_config_def)

lemma rearrange_patches_example:
  "case rearrange_patches 2 2 image0 of
     Inl e \<Rightarrow> False
   | Inr r \<Rightarrow> shape r = [1, 4, 8]
       \<and> map (\<lambda>j. el r [0, 2, j]) [0..<8] = [8, 108, 9, 109, 12, 112, 13, 113]"
  by (simp add: rearrange_patches_def image0_def upt_conv_Cons)

lemma patch_vector_example:
  "patch_vector 2 2 image0 0 1 0 = [8, 108, 9, 109, 12, 112, 13, 113]"
  by (simp add: patch_vector_def image0_def upt_conv_Cons)





section \<open>The claims\<close>



text \<open>
  Claim C2. On an image batch of shape \<open>[b, ch, H, W]\<close> whose height and width are
  multiples of the patch height and width, a PatchEmbed built for \<open>ch\<close> channels returns
  \<open>(H div p1) * (W div p2)\<close> positions of \<open>out_dim\<close> values. The flattening of a patch has
  \<open>ch * p1 * p2\<close> values, and the output at position \<open>hi * (W div p2) + wi\<close> is the
  embedding (normalise, project, normalise) of the flattening of patch \<open>(hi, wi)\<close> alone:
  rows \<open>hi * p1 + i1\<close> and columns \<open>wi * p2 + i2\<close> with \<open>i1 < p1\<close>, \<open>i2 < p2\<close>, so no
  pixel belongs to two patches.
\<close>

theorem PatchEmbed_positions:
  assumes x: "shape x = [b, ch, H, W]" and p: "0 < p1" "0 < p2"
    and dv: "H mod p1 = 0" "W mod p2 = 0" and ps: "patch_pair psz = (p1, p2)"
    and pe: "pe = PatchEmbed_init \<theta> pth ch psz out_dim bs pre post"
  shows "\<exists>y. PatchEmbed_forward pe x = Inr y
           \<and> shape y = [b, (H div p1) * (W div p2), out_dim]
           \<and> (\<forall>bi hi wi. length (patch_vector p1 p2 x bi hi wi) = ch * p1 * p2)
           \<and> (\<forall>bi hi wi k. hi < H div p1 \<and> wi < W div p2 \<and> k < out_dim \<longrightarrow>
                (\<exists>e. embed_vector pe (patch_vector p1 p2 x bi hi wi) = Inr e
                   \<and> el y [bi, hi * (W div p2) + wi, k] = el e [k]))"
proof -
  obtain r x2 x3 y where st: "rearrange_patches p1 p2 x = Inr r"
      "shape r = [b, (H div p1) * (W div p2), p1 * p2 * ch]"
      "norm_slot_forward (pre_norm pe) r = Inr x2"
      "Linear_forward (proj pe) x2 = Inr x3"
      "shape x3 = [b, (H div p1) * (W div p2), out_dim]"
      "norm_slot_forward (post_norm pe) x3 = Inr y"
      "shape y = [b, (H div p1) * (W div p2), out_dim]"
      "PatchEmbed_forward pe x = Inr y"
    using PatchEmbed_forward_stages [OF x p dv ps pe] by blast
  have f: "pre_norm pe = (if pre then Norm (LayerNorm_init (ch * p1 * p2)) else NoNorm)"
      "post_norm pe = (if post then Norm (LayerNorm_init out_dim) else NoNorm)"
      "in_features (proj pe) = ch * p1 * p2" "out_features (proj pe) = out_dim"
    using ps by (simp_all add: pe PatchEmbed_init_def Let_def Linear_init_def)
  have len: "length (patch_vector p1 p2 x bi hi wi) = ch * p1 * p2" for bi hi wi
    using patch_vector_length [OF x, of p1 p2 bi hi wi] by (simp add: mult_ac)
  have loc: "\<exists>e. embed_vector pe (patch_vector p1 p2 x bi hi wi) = Inr e
               \<and> el y [bi, hi * (W div p2) + wi, k] = el e [k]"
    if w: "wi < W div p2" and k: "k < out_dim" for bi hi wi k
  proof -
    let ?v = "patch_vector p1 p2 x bi hi wi"
    let ?pre = "[bi, hi * (W div p2) + wi]"
    have v: "shape (vector_t ?v) = [] @ [ch * p1 * p2]"
      by (simp add: vector_t_def len)
    obtain e2 where e2: "norm_slot_forward (pre_norm pe) (vector_t ?v) = Inr e2"
        "shape e2 = [] @ [in_features (proj pe)]"
      unfolding f using norm_slot_forward_shape [OF v] by blast
    obtain e3 where e3: "Linear_forward (proj pe) e2 = Inr e3" "shape e3 = [] @ [out_dim]"
      using Linear_forward_shape [OF e2(2)] f by auto
    obtain e where e: "norm_slot_forward (post_norm pe) e3 = Inr e"
      unfolding f using norm_slot_forward_shape [OF e3(2)] by blast
    have s1: "el (vector_t ?v) ([] @ [j]) = el r (?pre @ [j])" if "j < last (shape r)" for j
      using rearrange_patches_vector [OF x p dv st(1) w, of j bi hi] that st(2)
      by (simp add: vector_t_def)
    have s2: "el e2 ([] @ [j]) = el x2 (?pre @ [j])" if "j < last (shape r)" for j
      by (rule norm_slot_forward_local [OF st(3) e2(1) s1 that])
    have s3: "el e3 ([] @ [j]) = el x3 (?pre @ [j])" for j
      by (rule Linear_forward_local [OF st(4) e3(1)], rule s2) (simp add: f st(2) mult_ac)
    have "el e ([] @ [k]) = el y (?pre @ [k])"
      by (rule norm_slot_forward_local [OF st(6) e s3]) (simp add: st(5) k)
    then show ?thesis by (simp add: embed_vector_def e2 e3 e)
  qed
  show ?thesis using st(7,8) len loc by blast
qed

theorem PatchEmbed_positions_witness:
  "\<exists>y. PatchEmbed_forward (PatchEmbed_init theta0 [Name ''patch_embed''] 3 (PInt 4) 512 True False True)
         (zeros [512, 3, 32, 32]) = Inr y
       \<and> shape y = [512, 64, 512]
       \<and> length (patch_vector 4 4 (zeros [512, 3, 32, 32]) 0 0 0) = 48
       \<and> (\<exists>e. embed_vector (PatchEmbed_init theta0 [Name ''patch_embed''] 3 (PInt 4) 512 True False True)
                (patch_vector 4 4 (zeros [512, 3, 32, 32]) 0 7 7) = Inr e
             \<and> el y [0, 63, 0] = el e [0])"
proof -
  have s: "shape (zeros [512, 3, 32, 32]) = [512, 3, 32, 32]" by (simp add: zeros_def)
  obtain y where y: "PatchEmbed_forward
        (PatchEmbed_init theta0 [Name ''patch_embed''] 3 (PInt 4) 512 True False True)
        (zeros [512, 3, 32, 32]) = Inr y"
      "shape y = [512, 32 div 4 * (32 div 4), 512]"
      "\<forall>bi hi wi. length (patch_vector 4 4 (zeros [512, 3, 32, 32]) bi hi wi) = 3 * 4 * 4"
      "\<forall>bi hi wi k. hi < 32 div 4 \<and> wi < 32 div 4 \<and> k < 512 \<longrightarrow>
         (\<exists>e. embed_vector (PatchEmbed_init theta0 [Name ''patch_embed''] 3 (PInt 4) 512 True False True)
                 (patch_vector 4 4 (zeros [512, 3, 32, 32]) bi hi wi) = Inr e
             \<and> el y [bi, hi * (32 div 4) + wi, k] = el e [k])"
    using PatchEmbed_positions [OF s, of 4 4 "PInt 4" _ theta0 "[Name ''patch_embed'']" 512
        True False True]
    by auto
  have "\<exists>e. embed_vector (PatchEmbed_init theta0 [Name ''patch_embed''] 3 (PInt 4) 512 True False True)
                (patch_vector 4 4 (zeros [512, 3, 32, 32]) 0 7 7) = Inr e
             \<and> el y [0, 7 * (32 div 4) + 7, 0] = el e [0]"
    using y(4) [rule_format, of 7 7 0 0] by simp
  then show ?thesis using y(1,2,3) by simp
qed

text \<open>
  Claim C3. For a model built by \<open>VIT.__init__\<close> and an image batch of shape
  \<open>[b, 3, H, W]\<close> that the patch size divides and that yields as many patches as the
  positional table has rows, every stage succeeds and the result of the forward pass is
  the result of the last one: patch embedding, addition of the positional embedding to
  every batch element, Transformer, final LayerNorm, AttnPooler, and the Linear to
  \<open>num_classes\<close>; its shape is \<open>[b, num_classes]\<close>.
\<close>

theorem VIT_forward_composition:
  assumes m: "VIT_init \<theta> cfg = Inr m" and hd: "0 < cfg_heads cfg"
    and x: "shape x = [b, 3, H, W]"
    and dv: "H mod patch_size cfg = 0" "W mod patch_size cfg = 0"
    and np: "(H div patch_size cfg) * (W div patch_size cfg)
               = (image_size cfg div patch_size cfg)\<^sup>2"
  shows "\<exists>x1 h h1 h2 h3 y.
           PatchEmbed_forward (patch_embed m) x = Inr x1
         \<and> shape x1 = [b, (image_size cfg div patch_size cfg)\<^sup>2, head_dim cfg * cfg_heads cfg]
         \<and> add_t x1 (unsqueeze0 (pos_embs m)) = Inr h
         \<and> shape h = shape x1
         \<and> (\<forall>bi k j. bi < b \<and> k < (image_size cfg div patch_size cfg)\<^sup>2
                       \<and> j < head_dim cfg * cfg_heads cfg \<longrightarrow>
               el h [bi, k, j] = el x1 [bi, k, j] + el (pos_embs m) [k, j])
         \<and> Transformer_forward c (transformer m) h = Inr h1
         \<and> LayerNorm_forward (out_norm m) h1 = Inr h2
         \<and> AttnPooler_forward (pooler m) h2 = Inr h3
         \<and> Linear_forward (proj_out m) h3 = Inr y
         \<and> out_features (proj_out m) = num_classes cfg
         \<and> VIT_forward c m x = Inr y
         \<and> shape y = [b, num_classes cfg]"
proof -
  note f = VIT_init_fields [OF m]
  let ?d = "head_dim cfg * cfg_heads cfg"
  let ?P = "(image_size cfg div patch_size cfg)\<^sup>2"
  obtain x1 where x1: "PatchEmbed_forward (patch_embed m) x = Inr x1" "shape x1 = [b, ?P, ?d]"
    using VIT_patch_shape [OF m x dv] np by auto
  obtain h where h: "add_t x1 (unsqueeze0 (pos_embs m)) = Inr h" "shape h = [b, ?P, ?d]"
    using add_pos_shape [OF x1(2) f(3)] by auto
  have el: "el h [bi, k, j] = el x1 [bi, k, j] + el (pos_embs m) [k, j]"
    if "bi < b" "k < ?P" "j < ?d" for bi k j
    by (rule add_pos_el [OF x1(2) f(3) h(1) that])
  obtain h1 h2 h3 y where t: "Transformer_forward c (transformer m) h = Inr h1"
      "LayerNorm_forward (out_norm m) h1 = Inr h2" "AttnPooler_forward (pooler m) h2 = Inr h3"
      "Linear_forward (proj_out m) h3 = Inr y" "shape y = [b, num_classes cfg]"
    using VIT_tail_shape [OF m hd h(2)] by blast
  have o: "out_features (proj_out m) = num_classes cfg"
    by (simp add: f(7) Linear_init_def)
  have v: "VIT_forward c m x = Inr y"
    by (simp add: VIT_forward_def x1 h t)
  show ?thesis using x1 h el t o v by (metis (no_types, lifting))
qed

theorem VIT_forward_composition_witness:
  "\<exists>m y. VIT_init theta0 default_config = Inr m
       \<and> VIT_forward ctx0 m (zeros [512, 3, 32, 32]) = Inr y
       \<and> shape y = [512, 10]"
proof -
  obtain m where m: "VIT_init theta0 default_config = Inr m"
    using VIT_init_default by blast
  have s: "shape (zeros [512, 3, 32, 32]) = [512, 3, 32, 32]" by (simp add: zeros_def)
  have "\<exists>y. VIT_forward ctx0 m (zeros [512, 3, 32, 32]) = Inr y
            \<and> shape y = [512, num_classes default_config]"
    using VIT_forward_composition [OF m _ s, of ctx0]
    by (simp add: default_config_def) blast
  then show ?thesis using m by (simp add: default_config_def)
qed

text \<open>
  Claim C4. The merged per-head output has shape \<open>[b, n, heads * dim_head]\<close>. When
  \<open>heads = 1\<close> and \<open>dim_head = dim\<close> the output projection is the identity and the forward
  pass returns the merged output itself; in every other case the projection is a learned
  Linear from \<open>heads * dim_head\<close> to \<open>dim\<close> followed by Dropout, and the forward pass
  returns their result on the merged output.
\<close>

theorem Attention_output_projection:
  assumes a: "Attention_init \<theta> pth dimn hds dim_head dropout = Inr a"
    and h: "0 < hds" and x: "shape x = [b, n, dimn]"
  shows "\<exists>out. Attention_out a x = Inr out \<and> shape out = [b, n, hds * dim_head]
           \<and> (if hds = 1 \<and> dim_head = dimn
               then to_out a = Identity \<and> Attention_forward c a x = Inr out
               else \<exists>d y. to_out a
                       = Project (Linear_init \<theta> (pth @ [Name ''to_out'', Idx 0]) (dim_head * hds)
                                    dimn True) d
                     \<and> Linear_forward (Linear_init \<theta> (pth @ [Name ''to_out'', Idx 0])
                                          (dim_head * hds) dimn True) out = Inr y
                     \<and> Attention_forward c a x = Inr (Dropout_forward c d y))"
proof -
  obtain out where out: "Attention_out a x = Inr out" "shape out = [b, n, hds * dim_head]"
    using Attention_out_shape [OF a h x] by blast
  show ?thesis
  proof (cases "hds = 1 \<and> dim_head = dimn")
    case True
    then have "to_out a = Identity"
      using a by (auto simp: Attention_init_def split: if_splits)
    then show ?thesis using True out by (simp add: Attention_forward_def)
  next
    case False
    let ?l = "Linear_init \<theta> (pth @ [Name ''to_out'', Idx 0]) (dim_head * hds) dimn True"
    obtain d where d: "to_out a = Project ?l d"
      using a False
      by (auto simp: Attention_init_def Let_def and_then_def split: if_splits sum.splits)
    have "shape out = [b, n] @ [in_features ?l]"
      using out by (simp add: Linear_init_def mult.commute)
    from Linear_forward_shape [OF this]
    obtain y where y: "Linear_forward ?l out = Inr y" by blast
    have "Attention_forward c a x = Inr (Dropout_forward c d y)"
      by (simp add: Attention_forward_def out d y)
    then show ?thesis using False out d y by auto
  qed
qed

theorem Attention_output_projection_witness:
  "(\<exists>a out d y. Attention_init theta0 [] 4 2 2 0 = Inr a
       \<and> Attention_out a (zeros [1, 3, 4]) = Inr out \<and> shape out = [1, 3, 4]
       \<and> to_out a = Project (Linear_init theta0 [Name ''to_out'', Idx 0] 4 4 True) d
       \<and> Linear_forward (Linear_init theta0 [Name ''to_out'', Idx 0] 4 4 True) out = Inr y
       \<and> Attention_forward ctx0 a (zeros [1, 3, 4]) = Inr (Dropout_forward ctx0 d y))
   \<and> (\<exists>a out. Attention_init theta0 [] 4 1 4 0 = Inr a
       \<and> Attention_out a (zeros [1, 3, 4]) = Inr out \<and> shape out = [1, 3, 4]
       \<and> to_out a = Identity
       \<and> Attention_forward ctx0 a (zeros [1, 3, 4]) = Inr out)"
proof -
  have s: "shape (zeros [1, 3, 4]) = [1, 3, 4]" by (simp add: zeros_def)
  obtain a where a: "Attention_init theta0 [] 4 2 2 0 = Inr a"
    using Attention_init_small by blast
  obtain a' where a': "Attention_init theta0 [] 4 1 4 0 = Inr a'"
    using Attention_init_single_head by blast
  have 1: "\<exists>out d y. Attention_out a (zeros [1, 3, 4]) = Inr out \<and> shape out = [1, 3, 4]
       \<and> to_out a = Project (Linear_init theta0 [Name ''to_out'', Idx 0] 4 4 True) d
       \<and> Linear_forward (Linear_init theta0 [Name ''to_out'', Idx 0] 4 4 True) out = Inr y
       \<and> Attention_forward ctx0 a (zeros [1, 3, 4]) = Inr (Dropout_forward ctx0 d y)"
    using Attention_output_projection [OF a _ s, of ctx0] by auto
  have 2: "\<exists>out. Attention_out a' (zeros [1, 3, 4]) = Inr out \<and> shape out = [1, 3, 4]
       \<and> to_out a' = Identity
       \<and> Attention_forward ctx0 a' (zeros [1, 3, 4]) = Inr out"
    using Attention_output_projection [OF a' _ s, of ctx0] by auto
  show ?thesis using a a' 1 2 by blast
qed

text \<open>
  Claim C5. In the forward pass of an Attention instance on a sequence of \<open>n\<close> positions,
  the weights \<open>attn\<close> that multiply \<open>v\<close> have shape \<open>[b, heads, n, n]\<close>; the row of a query
  position is the softmax, along the keys, of its scores \<open>(q \<cdot> k) * dim_head ** -0.5\<close>, and it
  sums to 1. Entries are real numbers here; the floating-point tolerance of the
  specification is outside the model.
\<close>

theorem Attention_weights_softmax:
  assumes a: "Attention_init \<theta> pth dimn hds dim_head dropout = Inr a"
    and h: "0 < hds" and x: "shape x = [b, n, dimn]"
  shows "\<exists>q k v w. Attention_qkv a x = Inr (q, k, v) \<and> Attention_attn a q k = Inr w
           \<and> Attention_out a x = and_then (matmul w v) merge_heads
           \<and> shape w = [b, hds, n, n]
           \<and> (\<forall>bi hi i. map (\<lambda>j. el w [bi, hi, i, j]) [0..<n]
                          = softmax (score_row q k dim_head bi hi i n))
           \<and> (\<forall>bi hi i. i < n \<longrightarrow> (\<Sum>j\<leftarrow>[0..<n]. el w [bi, hi, i, j]) = 1)"
proof -
  obtain q k v where qkv: "Attention_qkv a x = Inr (q, k, v)" "shape q = [b, hds, n, dim_head]"
      "shape k = [b, hds, n, dim_head]" "shape v = [b, hds, n, dim_head]"
    using Attention_qkv_shape [OF a h x] by blast
  obtain w where w: "Attention_attn a q k = Inr w" "shape w = [b, hds, n, n]"
    using Attention_attn_shape [OF qkv(2) qkv(3)] by blast
  have sc: "attn_scale a = real dim_head powr (- (1 / 2))"
    using Attention_init_fields(2) [OF a] .
  have row: "map (\<lambda>j. el w [bi, hi, i, j]) [0..<n] = softmax (score_row q k dim_head bi hi i n)"
    for bi hi i
    by (simp add: softmax_def score_row_def Attention_attn_el [OF qkv(2) qkv(3) w(1)] sc comp_def)
  have one: "(\<Sum>j\<leftarrow>[0..<n]. el w [bi, hi, i, j]) = 1" if "i < n" for bi hi i
  proof -
    have "score_row q k dim_head bi hi i n \<noteq> []" using that by (simp add: score_row_def)
    from softmax_sum [OF this] show ?thesis by (simp add: row [symmetric])
  qed
  have out: "Attention_out a x = and_then (matmul w v) merge_heads"
    by (simp add: Attention_out_def qkv(1) w(1))
  show ?thesis using qkv(1) w out row one by blast
qed

theorem Attention_weights_softmax_witness:
  "\<exists>a q k v w. Attention_init theta0 [] 4 2 2 0 = Inr a
       \<and> Attention_qkv a (zeros [1, 3, 4]) = Inr (q, k, v)
       \<and> Attention_attn a q k = Inr w
       \<and> shape w = [1, 2, 3, 3]
       \<and> [el w [0, 1, 2, 0], el w [0, 1, 2, 1], el w [0, 1, 2, 2]]
           = softmax (score_row q k 2 0 1 2 3)
       \<and> el w [0, 1, 2, 0] + el w [0, 1, 2, 1] + el w [0, 1, 2, 2] = 1"
proof -
  obtain a where a: "Attention_init theta0 [] 4 2 2 0 = Inr a"
    using Attention_init_small by blast
  have s: "shape (zeros [1, 3, 4]) = [1, 3, 4]" by (simp add: zeros_def)
  obtain q k v w where r: "Attention_qkv a (zeros [1, 3, 4]) = Inr (q, k, v)"
      "Attention_attn a q k = Inr w" "shape w = [1, 2, 3, 3]"
      "\<forall>bi hi i. map (\<lambda>j. el w [bi, hi, i, j]) [0..<3] = softmax (score_row q k 2 bi hi i 3)"
      "\<forall>bi hi i. i < 3 \<longrightarrow> (\<Sum>j\<leftarrow>[0..<3]. el w [bi, hi, i, j]) = 1"
    using Attention_weights_softmax [OF a _ s] by auto
  have u: "[0..<3] = [0, 1, 2]" by (simp add: upt_conv_Cons)
  have "[el w [0, 1, 2, 0], el w [0, 1, 2, 1], el w [0, 1, 2, 2]]
           = softmax (score_row q k 2 0 1 2 3)"
    using r(4) [rule_format, of 0 1 2] unfolding u by simp
  moreover have "el w [0, 1, 2, 0] + el w [0, 1, 2, 1] + el w [0, 1, 2, 2] = 1"
    using r(5) [rule_format, of 2 0 1] unfolding u by simp
  ultimately show ?thesis using a r(1,2,3) by blast
qed

text \<open>
  Claim C7, amended. For a model built by \<open>VIT.__init__\<close> and an image batch of shape
  \<open>[b, 3, H, W]\<close>, the forward pass raises a shape error when the patch size does not
  divide the height or the width, or when the number of patches differs from the number
  of rows of the positional table and neither of the two is 1; in every other case it
  returns logits of shape \<open>[b, num_classes]\<close>. A table of one row, or a single patch, is
  broadcast by the addition instead of being rejected.
\<close>

theorem VIT_forward_fails_iff:
  assumes m: "VIT_init \<theta> cfg = Inr m" and hd: "0 < cfg_heads cfg"
    and x: "shape x = [b, 3, H, W]"
  shows "if H mod patch_size cfg \<noteq> 0 \<or> W mod patch_size cfg \<noteq> 0
            \<or> ((H div patch_size cfg) * (W div patch_size cfg) \<noteq> hd (shape (pos_embs m))
               \<and> hd (shape (pos_embs m)) \<noteq> 1
               \<and> (H div patch_size cfg) * (W div patch_size cfg) \<noteq> 1)
         then VIT_forward c m x = Inl ShapeError
         else \<exists>y. VIT_forward c m x = Inr y \<and> shape y = [b, num_classes cfg]"
proof -
  have P: "hd (shape (pos_embs m)) = (image_size cfg div patch_size cfg)\<^sup>2"
    by (simp add: VIT_init_fields(3) [OF m])
  let ?n = "(H div patch_size cfg) * (W div patch_size cfg)"
  let ?P = "(image_size cfg div patch_size cfg)\<^sup>2"
  let ?bad = "H mod patch_size cfg \<noteq> 0 \<or> W mod patch_size cfg \<noteq> 0
                \<or> (?n \<noteq> ?P \<and> ?P \<noteq> 1 \<and> ?n \<noteq> 1)"
  show ?thesis
  proof (cases ?bad)
    case True
    then have "VIT_forward c m x = Inl ShapeError"
      by (rule VIT_forward_fails [OF m x])
    with True show ?thesis unfolding P by (simp only: if_True)
  next
    case False
    then have "H mod patch_size cfg = 0" "W mod patch_size cfg = 0"
        "?n = ?P \<or> ?P = 1 \<or> ?n = 1"
      by auto
    then have "\<exists>y. VIT_forward c m x = Inr y \<and> shape y = [b, num_classes cfg]"
      by (rule VIT_forward_ok [OF m hd x])
    with False show ?thesis unfolding P by (simp only: if_False)
  qed
qed

theorem VIT_forward_fails_iff_witness:
  "\<exists>m. VIT_init theta0 default_config = Inr m
       \<and> VIT_forward ctx0 m (zeros [512, 3, 30, 32]) = Inl ShapeError
       \<and> VIT_forward ctx0 m (zeros [512, 3, 16, 16]) = Inl ShapeError
       \<and> (\<exists>y. VIT_forward ctx0 m (zeros [512, 3, 32, 32]) = Inr y \<and> shape y = [512, 10])"
proof -
  obtain m where m: "VIT_init theta0 default_config = Inr m"
    using VIT_init_default by blast
  have P: "hd (shape (pos_embs m)) = 64"
    using VIT_init_fields(3) [OF m] by (simp add: default_config_def)
  have s: "shape (zeros [512, 3, 30, 32]) = [512, 3, 30, 32]"
      "shape (zeros [512, 3, 16, 16]) = [512, 3, 16, 16]"
      "shape (zeros [512, 3, 32, 32]) = [512, 3, 32, 32]"
    by (simp_all add: zeros_def)
  have 1: "VIT_forward ctx0 m (zeros [512, 3, 30, 32]) = Inl ShapeError"
    using VIT_forward_fails_iff [OF m _ s(1), of ctx0] by (simp add: default_config_def)
  have 2: "VIT_forward ctx0 m (zeros [512, 3, 16, 16]) = Inl ShapeError"
    using VIT_forward_fails_iff [OF m _ s(2), of ctx0] by (simp add: default_config_def P)
  have 3: "\<exists>y. VIT_forward ctx0 m (zeros [512, 3, 32, 32]) = Inr y \<and> shape y = [512, 10]"
    using VIT_forward_fails_iff [OF m _ s(3), of ctx0] by (simp add: default_config_def P)
  show ?thesis using m 1 2 3 by blast
qed

text \<open>
  The claim as written fails: a model built with \<open>image_size = patch_size = 4\<close> has a
  positional table of one row; an 8 by 8 image gives four patches, which is not the
  number of rows, and the forward pass returns all the same.
\<close>

theorem VIT_forward_broadcast_counterexample:
  "\<exists>m. VIT_init theta0 (default_config\<lparr>image_size := 4\<rparr>) = Inr m
       \<and> \<not> ((\<exists>e. VIT_forward ctx0 m (zeros [1, 3, 8, 8]) = Inl e)
              \<longleftrightarrow> (8 mod patch_size (default_config\<lparr>image_size := 4\<rparr>) \<noteq> (0::nat)
                   \<or> 8 mod patch_size (default_config\<lparr>image_size := 4\<rparr>) \<noteq> (0::nat)
                   \<or> (8 div patch_size (default_config\<lparr>image_size := 4\<rparr>))
                      * (8 div patch_size (default_config\<lparr>image_size := 4\<rparr>))
                      \<noteq> hd (shape (pos_embs m))))"
proof -
  let ?cfg = "default_config\<lparr>image_size := 4\<rparr>"
  obtain m where m: "VIT_init theta0 ?cfg = Inr m"
    using VIT_init_one_patch by blast
  have P: "hd (shape (pos_embs m)) = 1"
    using VIT_init_fields(3) [OF m] by (simp add: default_config_def)
  have s: "shape (zeros [1, 3, 8, 8]) = [1, 3, 8, 8]" by (simp add: zeros_def)
  have "\<exists>y. VIT_forward ctx0 m (zeros [1, 3, 8, 8]) = Inr y"
    using VIT_forward_ok [OF m _ s, of ctx0] by (auto simp: default_config_def)
  then have "\<not> (\<exists>e. VIT_forward ctx0 m (zeros [1, 3, 8, 8]) = Inl e)" by auto
  moreover have "(8 div patch_size ?cfg) * (8 div patch_size ?cfg) \<noteq> hd (shape (pos_embs m))"
    by (simp add: P default_config_def)
  ultimately show ?thesis using m by blast
qed

text \<open>
  Claim C8. The calls of \<open>fully_shard\<close> are, in this order: one for every attention
  wrapper by index, one for every feed-forward wrapper by index, and the whole model last;
  each is made with \<open>reshard_after_forward\<close> set.
\<close>

theorem shard_model_order:
  "shard_model rank net
     = map (\<lambda>i. FullyShard (AttentionRef i) the_fsdp_config)
         [0..<length (attentions (transformer net))]
       @ map (\<lambda>i. FullyShard (FfnRef i) the_fsdp_config)
           [0..<length (ffns (transformer net))]
       @ [FullyShard NetRef the_fsdp_config]
   \<and> reshard_after_forward the_fsdp_config"
  by (simp add: shard_model_def print_if_master_def debug_def the_fsdp_config_def
        concat_map_singleton)

theorem shard_model_order_witness:
  "\<exists>m. VIT_init theta0 default_config = Inr m
       \<and> length (shard_model 3 m) = 17
       \<and> shard_model 3 m ! 0 = FullyShard (AttentionRef 0) the_fsdp_config
       \<and> shard_model 3 m ! 8 = FullyShard (FfnRef 0) the_fsdp_config
       \<and> shard_model 3 m ! 16 = FullyShard NetRef the_fsdp_config"
proof -
  obtain m where m: "VIT_init theta0 default_config = Inr m"
    using VIT_init_default by blast
  have l: "length (attentions (transformer m)) = 8" "length (ffns (transformer m)) = 8"
    using Transformer_init_lengths [OF VIT_init_fields(4) [OF m]]
    by (simp_all add: default_config_def)
  have "shard_model 3 m
     = map (\<lambda>i. FullyShard (AttentionRef i) the_fsdp_config) [0..<8]
       @ map (\<lambda>i. FullyShard (FfnRef i) the_fsdp_config) [0..<8]
       @ [FullyShard NetRef the_fsdp_config]"
    using shard_model_order [of 3 m] l by simp
  then show ?thesis using m by (simp add: nth_append upt_conv_Cons)
qed

text \<open>
  Claim C9, at the worker of rank 1. The last thing it does is print
  \<open>Finished Training\<close>, whatever the number of batches; and were an epoch to have 2000
  batches (the script's loader has 98) it would print the loss line of step 2000. Neither
  \<open>print\<close> is behind the rank test that \<open>print_if_master\<close> and the progress bar apply.
\<close>

theorem worker_one_writes_log_lines:
  "last (script 1 net loss n) = Print ''Finished Training''
   \<and> (\<exists>r. PrintLoss 1 2000 r \<in> set (script 1 net loss 2000))"
proof -
  have "\<exists>r. PrintLoss (0 + 1) (1999 + 1) r \<in> set (epoch_loop 1 loss 0 [0..<2000] 0)"
    by (rule epoch_loop_prints_loss) simp_all
  then obtain r where "PrintLoss 1 2000 r \<in> set (epoch_loop 1 loss 0 [0..<2000] 0)"
    by auto
  then have "PrintLoss 1 2000 r \<in> set (train 1 loss 2000)"
    by (simp add: train_def upt_conv_Cons [of 0 2])
  then show ?thesis by (auto simp: script_def train_def)
qed

text \<open>
  Claim C10. Two configurations that differ only in \<open>in_channels\<close> and \<open>emb_dropout\<close>
  construct the same model from the same initial parameter values, hence the same forward
  function; the patch projection always reads \<open>3 * patch_size * patch_size\<close> values,
  whatever \<open>in_channels\<close> says.
\<close>

theorem VIT_ignores_in_channels_and_emb_dropout:
  "VIT_init \<theta> (cfg\<lparr>in_channels := c1, emb_dropout := e1\<rparr>)
     = VIT_init \<theta> (cfg\<lparr>in_channels := c2, emb_dropout := e2\<rparr>)
   \<and> and_then (VIT_init \<theta> (cfg\<lparr>in_channels := c1, emb_dropout := e1\<rparr>)) (\<lambda>m. VIT_forward c m x)
     = and_then (VIT_init \<theta> (cfg\<lparr>in_channels := c2, emb_dropout := e2\<rparr>)) (\<lambda>m. VIT_forward c m x)
   \<and> (case VIT_init \<theta> cfg of
        Inl e \<Rightarrow> True
      | Inr m \<Rightarrow> in_features (proj (patch_embed m)) = 3 * patch_size cfg * patch_size cfg)"
  by (auto simp: VIT_init_def Let_def PatchEmbed_init_def Linear_init_def and_then_def
        split: sum.splits)

theorem VIT_ignores_in_channels_and_emb_dropout_witness:
  "\<exists>m. VIT_init theta0 (default_config\<lparr>in_channels := 1, emb_dropout := 0\<rparr>) = Inr m
       \<and> VIT_init theta0 (default_config\<lparr>in_channels := 7, emb_dropout := 1 / 2\<rparr>) = Inr m
       \<and> in_features (proj (patch_embed m)) = 48"
proof -
  let ?cfg = "default_config\<lparr>in_channels := 1, emb_dropout := 0\<rparr>"
  obtain m where m: "VIT_init theta0 ?cfg = Inr m"
    using VIT_init_ok [of ?cfg theta0] by (auto simp: default_config_def)
  have "VIT_init theta0 (?cfg\<lparr>in_channels := 1, emb_dropout := 0\<rparr>)
          = VIT_init theta0 (?cfg\<lparr>in_channels := 7, emb_dropout := 1 / 2\<rparr>)"
      and "case VIT_init theta0 ?cfg of Inl e \<Rightarrow> True
           | Inr m \<Rightarrow> in_features (proj (patch_embed m)) = 3 * patch_size ?cfg * patch_size ?cfg"
    using VIT_ignores_in_channels_and_emb_dropout
        [where \<theta> = theta0 and cfg = ?cfg and ?c1.0 = 1 and ?e1.0 = 0 and ?c2.0 = 7
           and ?e2.0 = "1 / 2"]
    by blast+
  then show ?thesis using m by (simp add: default_config_def)
qed

end
